theory Spec2Isabelle
  imports Complex_Main
begin

section \<open>Numbers\<close>

text \<open>
  The program is TypeScript; every quantity is a JavaScript number. The model idealises
  a finite number as a \<^typ>\<open>real\<close>: rounding and overflow of the binary64 and
  binary32 formats are not represented. What is represented is the one way in which the
  arithmetic of the program leaves the real numbers on real inputs: \<open>Math.pow\<close> of a
  negative base and a non-integer exponent is NaN. A value that may be NaN is a
  \<open>jsnum\<close>, with \<open>None\<close> for NaN; NaN is absorbing for \<open>+\<close> and \<open>*\<close>
  and makes every comparison false.
\<close>

type_synonym jsnum = "real option"

text \<open>\<open>THREE.MathUtils.clamp(value, min, max)\<close> of three.js:
  \<open>Math.max(min, Math.min(max, value))\<close>.\<close>

definition clamp :: "real \<Rightarrow> real \<Rightarrow> real \<Rightarrow> real" where
  "clamp v lo hi = max lo (min hi v)"

text \<open>\<open>THREE.MathUtils.lerp(x, y, t)\<close> of three.js: \<open>(1 - t) * x + t * y\<close>.\<close>

definition lerp :: "real \<Rightarrow> real \<Rightarrow> real \<Rightarrow> real" where
  "lerp x y t = (1 - t) * x + t * y"

text \<open>
  \<open>Math.pow(x, y)\<close> on finite arguments. A zero exponent gives 1; a positive base
  gives the real power; base 0 with a positive exponent gives 0; a negative base gives the
  integer power when the exponent is an integer, and NaN otherwise. Base 0 with a negative
  exponent is \<open>Infinity\<close> in JavaScript, which the finite model cannot hold; both call
  sites of the program pass an exponent that is at least 1 (see \<open>ring_ok\<close> and
  \<open>gates_ok\<close> below), and the model maps that case to \<open>None\<close> too.
\<close>

definition Math_pow :: "real \<Rightarrow> real \<Rightarrow> jsnum" where
  "Math_pow x y =
     (if y = 0 then Some 1
      else if 0 < x then Some (x powr y)
      else if x = 0 then (if 0 < y then Some 0 else None)
      else if y = of_int \<lfloor>y\<rfloor> then Some (x powi \<lfloor>y\<rfloor>)
      else None)"

text \<open>
  The remainder operator \<open>x % y\<close> on numbers: the quotient is truncated towards zero, so
  the result has the sign of \<open>x\<close>. The program only ever divides by \<open>tau > 0\<close>.
\<close>

definition trunc :: "real \<Rightarrow> int" where
  "trunc q = (if 0 \<le> q then \<lfloor>q\<rfloor> else \<lceil>q\<rceil>)"

definition js_rem :: "real \<Rightarrow> real \<Rightarrow> real" where
  "js_rem x y = x - y * of_int (trunc (x / y))"

section \<open>PresenceSystem\<close>

text \<open>
  \<open>src/systems/PresenceSystem.ts\<close>. The state of the class is \<open>state.level\<close>,
  \<open>state.lastUpdate\<close> and the private \<open>gates\<close>; \<open>performance.now()\<close> is passed in as
  an argument wherever the code reads it. The key handler of the debug hotkeys is not part
  of the model.
\<close>

record PresenceGatesConfig =
  hourFadeSeconds :: real
  minuteFadeSeconds :: real
  secondFadeSeconds :: real
  easePower :: real

text \<open>\<open>Partial<PresenceGatesConfig>\<close>: each property present or absent.\<close>

record PartialGatesConfig =
  p_hourFadeSeconds :: "real option"
  p_minuteFadeSeconds :: "real option"
  p_secondFadeSeconds :: "real option"
  p_easePower :: "real option"

record ClockPresenceLevels =
  hour :: jsnum
  minute :: jsnum
  second :: jsnum

record PresenceSystem =
  level :: real
  lastUpdate :: real
  gates :: PresenceGatesConfig

definition default_gates :: PresenceGatesConfig where
  "default_gates =
     \<lparr>hourFadeSeconds = 60, minuteFadeSeconds = 30, secondFadeSeconds = 15, easePower = 1\<rparr>"

definition PresenceSystem_new :: "real \<Rightarrow> PresenceSystem" where
  "PresenceSystem_new now = \<lparr>level = 0, lastUpdate = now, gates = default_gates\<rparr>"

definition PresenceSystem_update :: "PresenceSystem \<Rightarrow> real \<Rightarrow> real \<Rightarrow> PresenceSystem" where
  "PresenceSystem_update st deltaTime now = st\<lparr>lastUpdate := now\<rparr>"

definition getPresenceLevel :: "PresenceSystem \<Rightarrow> real" where
  "getPresenceLevel st = level st"

definition setPresenceLevel :: "PresenceSystem \<Rightarrow> real \<Rightarrow> real \<Rightarrow> PresenceSystem" where
  "setPresenceLevel st lvl now = st\<lparr>level := clamp lvl 0 1, lastUpdate := now\<rparr>"

definition nudgePresence :: "PresenceSystem \<Rightarrow> real \<Rightarrow> real \<Rightarrow> PresenceSystem" where
  "nudgePresence st delta now = setPresenceLevel st (level st + delta) now"

text \<open>The object spread \<open>{...this.gates, ...partial}\<close>: a present property wins.\<close>

definition merge_gates :: "PresenceGatesConfig \<Rightarrow> PartialGatesConfig \<Rightarrow> PresenceGatesConfig" where
  "merge_gates g partial =
     \<lparr>hourFadeSeconds = (case p_hourFadeSeconds partial of None \<Rightarrow> hourFadeSeconds g | Some v \<Rightarrow> v),
      minuteFadeSeconds = (case p_minuteFadeSeconds partial of None \<Rightarrow> minuteFadeSeconds g | Some v \<Rightarrow> v),
      secondFadeSeconds = (case p_secondFadeSeconds partial of None \<Rightarrow> secondFadeSeconds g | Some v \<Rightarrow> v),
      easePower = (case p_easePower partial of None \<Rightarrow> easePower g | Some v \<Rightarrow> v)\<rparr>"

definition setGatesConfig :: "PresenceSystem \<Rightarrow> PartialGatesConfig \<Rightarrow> PresenceSystem" where
  "setGatesConfig st partial =
     (let g = merge_gates (gates st) partial in
      st\<lparr>gates :=
        \<lparr>hourFadeSeconds = max 0.001 (hourFadeSeconds g),
         minuteFadeSeconds = max 0.001 (minuteFadeSeconds g),
         secondFadeSeconds = max 0.001 (secondFadeSeconds g),
         easePower = max 0 (easePower g)\<rparr>\<rparr>)"

definition getGatesConfig :: "PresenceSystem \<Rightarrow> PresenceGatesConfig" where
  "getGatesConfig st = gates st"

text \<open>
  \<open>computeStageValue\<close>. The division is the division of the reals; \<open>stageDuration\<close> is
  one of the three fade durations, which are never 0 in a state the class can reach
  (\<open>gates_ok\<close> below).
\<close>

definition computeStageValue :: "PresenceGatesConfig \<Rightarrow> real \<Rightarrow> real \<Rightarrow> real \<Rightarrow> jsnum" where
  "computeStageValue g progressedSeconds stageStart stageDuration =
     (let t = (progressedSeconds - stageStart) / stageDuration in
      if t \<le> 0 then Some 1
      else if t \<ge> 1 then Some 0
      else
        let linear = 1 - t;
            eased = (if easePower g \<le> 0 then Some linear else Math_pow linear (1 + easePower g))
        in map_option (\<lambda>e. clamp e 0 1) eased)"

definition getClockPresenceLevels :: "PresenceSystem \<Rightarrow> ClockPresenceLevels" where
  "getClockPresenceLevels st =
     (let p = clamp (level st) 0 1;
          g = gates st;
          total = hourFadeSeconds g + minuteFadeSeconds g + secondFadeSeconds g;
          progressed = (1 - p) * total
      in \<lparr>hour = computeStageValue g progressed 0 (hourFadeSeconds g),
          minute = computeStageValue g progressed (hourFadeSeconds g) (minuteFadeSeconds g),
          second = computeStageValue g progressed
                     (hourFadeSeconds g + minuteFadeSeconds g) (secondFadeSeconds g)\<rparr>)"

text \<open>
  What every reachable gate configuration satisfies: the fields are private, start at the
  defaults 60/30/15/1 and change only in \<open>setGatesConfig\<close>, which floors them.
\<close>

definition gates_ok :: "PresenceGatesConfig \<Rightarrow> bool" where
  "gates_ok g \<longleftrightarrow>
     0.001 \<le> hourFadeSeconds g \<and> 0.001 \<le> minuteFadeSeconds g \<and>
     0.001 \<le> secondFadeSeconds g \<and> 0 \<le> easePower g"

text \<open>The operations of the class, for statements about every sequence of calls.\<close>

datatype presence_op =
    OpUpdate real real
  | OpSetPresenceLevel real real
  | OpNudgePresence real real
  | OpSetGatesConfig PartialGatesConfig

fun presence_step :: "PresenceSystem \<Rightarrow> presence_op \<Rightarrow> PresenceSystem" where
  "presence_step st (OpUpdate dt now) = PresenceSystem_update st dt now"
| "presence_step st (OpSetPresenceLevel v now) = setPresenceLevel st v now"
| "presence_step st (OpNudgePresence d now) = nudgePresence st d now"
| "presence_step st (OpSetGatesConfig partial) = setGatesConfig st partial"

definition presence_run :: "real \<Rightarrow> presence_op list \<Rightarrow> PresenceSystem" where
  "presence_run now0 ops = foldl presence_step (PresenceSystem_new now0) ops"

text \<open>
  The stage value in the words of the specification: with
  \<open>t = (progressed - stageStart) / duration\<close>, 1 if \<open>t \<le> 0\<close>, 0 if \<open>t \<ge> 1\<close>, and
  otherwise \<open>(1 - t) ^ (1 + easePower)\<close> clamped to [0,1].
\<close>

definition spec_stage :: "real \<Rightarrow> real \<Rightarrow> real \<Rightarrow> real \<Rightarrow> real" where
  "spec_stage ease progressed stageStart d =
     (let t = (progressed - stageStart) / d in
      if t \<le> 0 then 1
      else if t \<ge> 1 then 0
      else clamp ((1 - t) powr (1 + ease)) 0 1)"

text \<open>
  The comparison \<open>a <= b\<close> of two numbers either of which may be NaN: false as soon as
  one of them is NaN.
\<close>

definition jsnum_le :: "jsnum \<Rightarrow> jsnum \<Rightarrow> bool" where
  "jsnum_le a b = (case a of None \<Rightarrow> False | Some x \<Rightarrow> (case b of None \<Rightarrow> False | Some y \<Rightarrow> x \<le> y))"

section \<open>RingPoints\<close>

text \<open>
  The class \<open>RingPoints\<close> of \<open>ClockSystem.ts\<close>, in the version whose rings are single
  comet trails with a tail length driven by presence. Of the three.js objects the class
  holds, the model keeps the base colour, the point size of the material, and the two
  typed arrays \<open>angles\<close> and \<open>colors\<close>; \<open>colors\<close> is the flat buffer of three
  channels per point, and an element of it may be NaN.
\<close>

datatype ClockColorMode = classic | perRing | rainbow | vinyl

record Color =
  col_r :: real
  col_g :: real
  col_b :: real

record RingPointsConfig =
  cfg_radius :: real
  cfg_thickness :: real
  cfg_points :: nat
  cfg_falloffFactor :: real
  cfg_minTailLength :: real
  cfg_maxTailLength :: real
  cfg_baseColor :: Color

record RingPoints =
  baseColor :: Color
  angles :: "real list"
  colors :: "jsnum list"
  falloffPower :: real
  minTailLengthFraction :: real
  maxTailLengthFraction :: real
  baseSize :: real
  material_size :: real

definition tau :: real where
  "tau = pi * 2"

definition EPS :: real where
  "EPS = 1 / 1000000"

definition TAIL_FLOOR :: real where
  "TAIL_FLOOR = 0.031"

definition RingPoints_new :: "RingPointsConfig \<Rightarrow> RingPoints" where
  "RingPoints_new config =
     (let points = cfg_points config;
          clampedFalloff = clamp (cfg_falloffFactor config) 0 1
      in \<lparr>baseColor = cfg_baseColor config,
          angles = map (\<lambda>i. real i / real points * pi * 2) [0..<points],
          colors = replicate (points * 3) (Some 0),
          falloffPower = lerp 1.2 3.0 clampedFalloff,
          minTailLengthFraction = clamp (cfg_minTailLength config) 0 1,
          maxTailLengthFraction = clamp (cfg_maxTailLength config) 0 1,
          baseSize = cfg_thickness config * 0.8,
          material_size = cfg_thickness config * 0.8\<rparr>)"

definition getBaseColor :: "RingPoints \<Rightarrow> Color" where
  "getBaseColor ring = baseColor ring"

definition setThicknessScale :: "RingPoints \<Rightarrow> real \<Rightarrow> RingPoints" where
  "setThicknessScale ring sc = ring\<lparr>material_size := baseSize ring * sc\<rparr>"

text \<open>The head angle brought into \<open>[0, tau)\<close>: \<open>headAngle % tau\<close>, plus \<open>tau\<close> if negative.\<close>

definition normalize_head :: "real \<Rightarrow> real" where
  "normalize_head headAngle =
     (let head = js_rem headAngle tau in if head < 0 then head + tau else head)"

text \<open>The tail arc of a paint call, from the presence level alone.\<close>

definition tail_arc :: "RingPoints \<Rightarrow> real \<Rightarrow> real" where
  "tail_arc ring presenceLevel =
     (let presence = clamp presenceLevel 0 1;
          minArc = max (minTailLengthFraction ring * tau) (1 / 10000);
          maxArc = max (maxTailLengthFraction ring * tau) (1 / 10000)
      in lerp minArc maxArc presence)"

text \<open>How far back from the head a point at \<open>angle\<close> lies.\<close>

definition delta_back :: "real \<Rightarrow> real \<Rightarrow> real" where
  "delta_back head angle = js_rem (head - angle + tau) tau"

text \<open>
  The body of the loop of \<open>updateFill\<close> up to the intensity of one point. NaN times the
  scale is NaN, and \<open>NaN > 1\<close> is false, so a NaN intensity stays NaN.
\<close>

definition point_intensity :: "real \<Rightarrow> real \<Rightarrow> real \<Rightarrow> real \<Rightarrow> real \<Rightarrow> jsnum" where
  "point_intensity head tailArc falloff safeIntensityScale angle =
     (let deltaBack = delta_back head angle;
          intensity0 =
            (if deltaBack \<ge> 0 \<and> deltaBack \<le> tailArc + EPS then
               let t = 1 - deltaBack / tailArc;
                   shaped = Math_pow t falloff
               in map_option (\<lambda>sh. TAIL_FLOOR + (1 - TAIL_FLOOR) * sh) shaped
             else Some 0);
          intensity1 = map_option (\<lambda>x. x * safeIntensityScale) intensity0
      in map_option (\<lambda>x. if x > 1 then 1 else x) intensity1)"

text \<open>
  The three writes of the loop body for point \<open>i\<close>. A write past the end of a typed
  array is ignored, as \<open>list_update\<close> does.
\<close>

definition write_point :: "Color \<Rightarrow> jsnum \<Rightarrow> nat \<Rightarrow> jsnum list \<Rightarrow> jsnum list" where
  "write_point base intensity i cols =
     (let idx = i * 3 in
      cols[idx := map_option (\<lambda>x. col_r base * x) intensity,
           idx + 1 := map_option (\<lambda>x. col_g base * x) intensity,
           idx + 2 := map_option (\<lambda>x. col_b base * x) intensity])"

text \<open>The intensity the loop computes for point \<open>i\<close> of a ring in one call.\<close>

definition ring_intensity :: "RingPoints \<Rightarrow> real \<Rightarrow> real \<Rightarrow> real \<Rightarrow> nat \<Rightarrow> jsnum" where
  "ring_intensity ring headAngle intensityScale presenceLevel i =
     point_intensity (normalize_head headAngle) (tail_arc ring presenceLevel)
       (falloffPower ring) (max 0 intensityScale) (angles ring ! i)"

definition updateFill ::
  "RingPoints \<Rightarrow> real \<Rightarrow> real \<Rightarrow> real \<Rightarrow> ClockColorMode \<Rightarrow> RingPoints" where
  "updateFill ring headAngle intensityScale presenceLevel mode =
     (let count = length (angles ring) in
      ring\<lparr>colors :=
        fold (\<lambda>i cols.
                write_point (baseColor ring)
                  (ring_intensity ring headAngle intensityScale presenceLevel i) i cols)
          [0..<count] (colors ring)\<rparr>)"

text \<open>
  What a ring built by the constructor satisfies, and every paint call keeps: the colour
  buffer has three slots per point, the falloff power lies in [1.2, 3], the tail
  fractions lie in [0, 1], and every angle lies in \<open>[0, tau)\<close>.
\<close>

definition ring_ok :: "RingPoints \<Rightarrow> bool" where
  "ring_ok ring \<longleftrightarrow>
     length (colors ring) = 3 * length (angles ring) \<and>
     1.2 \<le> falloffPower ring \<and> falloffPower ring \<le> 3 \<and>
     0 \<le> minTailLengthFraction ring \<and> minTailLengthFraction ring \<le> 1 \<and>
     0 \<le> maxTailLengthFraction ring \<and> maxTailLengthFraction ring \<le> 1 \<and>
     list_all (\<lambda>a. 0 \<le> a \<and> a < tau) (angles ring)"

text \<open>
  The intensity of a point in the words of the specification, for a head already in
  \<open>[0, 2\<pi>)\<close>, a tail arc \<open>A\<close>, a scale \<open>s\<close>, a tail floor \<open>f\<close> and a falloff power
  \<open>p\<close>: 0 beyond the arc and its epsilon guard, otherwise \<open>f + (1 - f) * t ^ p\<close> with
  \<open>t = 1 - deltaBack / A\<close>; the result times \<open>s\<close>, clamped to [0,1].
\<close>

definition spec_intensity :: "real \<Rightarrow> real \<Rightarrow> real \<Rightarrow> real \<Rightarrow> real \<Rightarrow> real \<Rightarrow> real" where
  "spec_intensity head A s f p a =
     (let deltaBack = delta_back head a;
          target = (if deltaBack > A + EPS then 0
                    else f + (1 - f) * (1 - deltaBack / A) powr p)
      in clamp (target * s) 0 1)"

section \<open>ClockSystem\<close>

text \<open>
  The class \<open>ClockSystem\<close> of the same file. \<open>new Date()\<close> is an input of \<open>update\<close>:
  the four fields the code reads from it. The three base colours are \<open>THREE.Color\<close>
  objects built from hexadecimal literals by three.js; the constructor takes them as
  arguments. An absent property of the configuration is \<open>None\<close>, and so is a \<open>null\<close>
  presence override.
\<close>

record WallClock =
  getHours :: nat
  getMinutes :: nat
  getSeconds :: nat
  getMilliseconds :: nat

record ClockSystemConfig =
  cfg_pointsPerRing :: "nat option"
  cfg_minTail :: "real option"
  cfg_maxTail :: "real option"

record ClockSystem =
  pointsPerRing :: nat
  hourRing :: RingPoints
  minuteRing :: RingPoints
  secondRing :: RingPoints
  colorMode :: ClockColorMode
  globalIntensity :: real
  distanceFactor :: real
  audioLow :: real
  audioMid :: real
  audioHigh :: real
  presenceLevel :: real
  hourPresence :: "real option"
  minutePresence :: "real option"
  secondPresence :: "real option"

definition ClockSystem_new :: "ClockSystemConfig \<Rightarrow> Color \<Rightarrow> Color \<Rightarrow> Color \<Rightarrow> ClockSystem" where
  "ClockSystem_new config hourColor minuteColor secondColor =
     (let ppr = (case cfg_pointsPerRing config of None \<Rightarrow> 12 | Some n \<Rightarrow> n);
          minTail = clamp (case cfg_minTail config of None \<Rightarrow> 0.031 | Some v \<Rightarrow> v) 0 1;
          maxTail = clamp (case cfg_maxTail config of None \<Rightarrow> 0.97 | Some v \<Rightarrow> v) 0 1;
          baseRadius = 3.1;
          gap = 0.6
      in \<lparr>pointsPerRing = ppr,
          hourRing = RingPoints_new
            \<lparr>cfg_radius = baseRadius + gap * 7, cfg_thickness = 0.31, cfg_points = ppr,
             cfg_falloffFactor = 0.35, cfg_minTailLength = minTail,
             cfg_maxTailLength = maxTail, cfg_baseColor = hourColor\<rparr>,
          minuteRing = RingPoints_new
            \<lparr>cfg_radius = baseRadius + gap * 2.5, cfg_thickness = 0.17, cfg_points = ppr * 5,
             cfg_falloffFactor = 0.35, cfg_minTailLength = minTail,
             cfg_maxTailLength = maxTail, cfg_baseColor = minuteColor\<rparr>,
          secondRing = RingPoints_new
            \<lparr>cfg_radius = baseRadius, cfg_thickness = 0.13, cfg_points = ppr * 30,
             cfg_falloffFactor = 0.35, cfg_minTailLength = minTail,
             cfg_maxTailLength = maxTail, cfg_baseColor = secondColor\<rparr>,
          colorMode = classic,
          globalIntensity = 1,
          distanceFactor = 1,
          audioLow = 0,
          audioMid = 0,
          audioHigh = 0,
          presenceLevel = 0,
          hourPresence = None,
          minutePresence = None,
          secondPresence = None\<rparr>)"

definition clearRingPresenceOverrides :: "ClockSystem \<Rightarrow> ClockSystem" where
  "clearRingPresenceOverrides cs =
     cs\<lparr>hourPresence := None, minutePresence := None, secondPresence := None\<rparr>"

definition ClockSystem_setPresenceLevel :: "ClockSystem \<Rightarrow> real \<Rightarrow> ClockSystem" where
  "ClockSystem_setPresenceLevel cs v =
     clearRingPresenceOverrides (cs\<lparr>presenceLevel := clamp v 0 1\<rparr>)"

definition ClockSystem_getPresenceLevel :: "ClockSystem \<Rightarrow> real" where
  "ClockSystem_getPresenceLevel cs = presenceLevel cs"

definition setRingPresenceLevels :: "ClockSystem \<Rightarrow> real \<Rightarrow> real \<Rightarrow> real \<Rightarrow> ClockSystem" where
  "setRingPresenceLevels cs h m s =
     cs\<lparr>hourPresence := Some (clamp h 0 1),
        minutePresence := Some (clamp m 0 1),
        secondPresence := Some (clamp s 0 1)\<rparr>"

definition setGlobalIntensity :: "ClockSystem \<Rightarrow> real \<Rightarrow> ClockSystem" where
  "setGlobalIntensity cs v = cs\<lparr>globalIntensity := max 0 v\<rparr>"

definition setDistanceFactor :: "ClockSystem \<Rightarrow> real \<Rightarrow> ClockSystem" where
  "setDistanceFactor cs v = cs\<lparr>distanceFactor := max 0 v\<rparr>"

definition setAudioLevels :: "ClockSystem \<Rightarrow> real \<Rightarrow> real \<Rightarrow> real \<Rightarrow> ClockSystem" where
  "setAudioLevels cs low mid high =
     cs\<lparr>audioLow := clamp low 0 1, audioMid := clamp mid 0 1, audioHigh := clamp high 0 1\<rparr>"

definition setColorMode :: "ClockSystem \<Rightarrow> ClockColorMode \<Rightarrow> ClockSystem" where
  "setColorMode cs mode = cs\<lparr>colorMode := mode\<rparr>"

definition ClockSystem_setThicknessScale :: "ClockSystem \<Rightarrow> real \<Rightarrow> ClockSystem" where
  "ClockSystem_setThicknessScale cs sc =
     (let s = max 0.1 sc in
      cs\<lparr>hourRing := setThicknessScale (hourRing cs) s,
         minuteRing := setThicknessScale (minuteRing cs) s,
         secondRing := setThicknessScale (secondRing cs) s\<rparr>)"

definition setRingThicknessScales :: "ClockSystem \<Rightarrow> real \<Rightarrow> real \<Rightarrow> real \<Rightarrow> ClockSystem" where
  "setRingThicknessScales cs hourScale minuteScale secondScale =
     cs\<lparr>hourRing := setThicknessScale (hourRing cs) (max 0.1 hourScale),
        minuteRing := setThicknessScale (minuteRing cs) (max 0.1 minuteScale),
        secondRing := setThicknessScale (secondRing cs) (max 0.1 secondScale)\<rparr>"

text \<open>The three progress fractions \<open>update\<close> derives from the clock reading.\<close>

definition hourProgress :: "WallClock \<Rightarrow> real" where
  "hourProgress now =
     (real (getHours now mod 12) + real (getMinutes now) / 60 + real (getSeconds now) / 3600
        + real (getMilliseconds now) / 3600000) / 12"

text \<open>
  The repository also holds an earlier copy of the file, \<open>src/systems/ClockSystem.ts\<close>,
  whose rings are arcs filled from twelve o'clock and whose class has no presence and no
  intensity knobs. Its \<open>update\<close> anchors the hour head to the hour number
  (\<open>hourProgress = hour12 / 12\<close>).
\<close>

definition hourProgress_anchored :: "WallClock \<Rightarrow> real" where
  "hourProgress_anchored now = real (getHours now mod 12) / 12"

definition minuteProgress :: "WallClock \<Rightarrow> real" where
  "minuteProgress now =
     (real (getMinutes now) + real (getSeconds now) / 60 + real (getMilliseconds now) / 60000) / 60"

definition secondProgress :: "WallClock \<Rightarrow> real" where
  "secondProgress now = (real (getSeconds now) + real (getMilliseconds now) / 1000) / 60"

definition ClockSystem_update :: "ClockSystem \<Rightarrow> real \<Rightarrow> WallClock \<Rightarrow> ClockSystem" where
  "ClockSystem_update cs dt now =
     (let hourAngle = hourProgress now * tau;
          minuteAngle = minuteProgress now * tau;
          secondAngle = secondProgress now * tau;
          baseIntensity = globalIntensity cs * distanceFactor cs;
          hourBoost = 1 + audioLow cs * 0.6;
          minuteBoost = 1 + audioMid cs * 0.6;
          secondBoost = 1 + audioHigh cs * 0.6;
          pHour = (case hourPresence cs of None \<Rightarrow> presenceLevel cs | Some p \<Rightarrow> p);
          pMinute = (case minutePresence cs of None \<Rightarrow> presenceLevel cs | Some p \<Rightarrow> p);
          pSecond = (case secondPresence cs of None \<Rightarrow> presenceLevel cs | Some p \<Rightarrow> p)
      in cs\<lparr>hourRing := updateFill (hourRing cs) hourAngle (baseIntensity * hourBoost) pHour (colorMode cs),
            minuteRing := updateFill (minuteRing cs) minuteAngle (baseIntensity * minuteBoost) pMinute (colorMode cs),
            secondRing := updateFill (secondRing cs) secondAngle (baseIntensity * secondBoost) pSecond (colorMode cs)\<rparr>)"

text \<open>The public operations of the class, for statements about sequences of calls.\<close>

datatype clock_op =
    CSetPresenceLevel real
  | CSetRingPresenceLevels real real real
  | CClearRingPresenceOverrides
  | CSetGlobalIntensity real
  | CSetDistanceFactor real
  | CSetAudioLevels real real real
  | CSetColorMode ClockColorMode
  | CSetThicknessScale real
  | CSetRingThicknessScales real real real
  | CUpdate real WallClock

fun clock_step :: "ClockSystem \<Rightarrow> clock_op \<Rightarrow> ClockSystem" where
  "clock_step cs (CSetPresenceLevel v) = ClockSystem_setPresenceLevel cs v"
| "clock_step cs (CSetRingPresenceLevels h m s) = setRingPresenceLevels cs h m s"
| "clock_step cs CClearRingPresenceOverrides = clearRingPresenceOverrides cs"
| "clock_step cs (CSetGlobalIntensity v) = setGlobalIntensity cs v"
| "clock_step cs (CSetDistanceFactor v) = setDistanceFactor cs v"
| "clock_step cs (CSetAudioLevels low mid high) = setAudioLevels cs low mid high"
| "clock_step cs (CSetColorMode mode) = setColorMode cs mode"
| "clock_step cs (CSetThicknessScale sc) = ClockSystem_setThicknessScale cs sc"
| "clock_step cs (CSetRingThicknessScales a b c) = setRingThicknessScales cs a b c"
| "clock_step cs (CUpdate dt now) = ClockSystem_update cs dt now"

fun is_setRingPresenceLevels :: "clock_op \<Rightarrow> bool" where
  "is_setRingPresenceLevels (CSetRingPresenceLevels h m s) = True"
| "is_setRingPresenceLevels _ = False"

text \<open>
  The fields of a \<open>Date\<close> at \<open>n\<close> milliseconds after local midnight, on a day without a
  change of the clock.
\<close>

definition clock_at :: "nat \<Rightarrow> WallClock" where
  "clock_at n =
     \<lparr>getHours = n div 3600000 mod 24, getMinutes = n div 60000 mod 60,
      getSeconds = n div 1000 mod 60, getMilliseconds = n mod 1000\<rparr>"

text \<open>No per-ring presence override is set.\<close>

definition no_overrides :: "ClockSystem \<Rightarrow> bool" where
  "no_overrides cs \<longleftrightarrow> hourPresence cs = None \<and> minutePresence cs = None \<and> secondPresence cs = None"

text \<open>
  A clock built with an empty configuration. The base colours of the examples are the
  bytes of the three hexadecimal literals of the constructor over 255.
\<close>

definition default_config :: ClockSystemConfig where
  "default_config = \<lparr>cfg_pointsPerRing = None, cfg_minTail = None, cfg_maxTail = None\<rparr>"

definition gold :: Color where
  "gold = \<lparr>col_r = 212 / 255, col_g = 175 / 255, col_b = 55 / 255\<rparr>"

definition sky :: Color where
  "sky = \<lparr>col_r = 127 / 255, col_g = 208 / 255, col_b = 255 / 255\<rparr>"

definition rose :: Color where
  "rose = \<lparr>col_r = 255 / 255, col_g = 79 / 255, col_b = 154 / 255\<rparr>"

definition default_clock :: ClockSystem where
  "default_clock = ClockSystem_new default_config gold sky rose"

text \<open>
  The ring of the scenario in the specification: four points, base colour (1, 0, 0), a tail
  of half the circle. The falloff power is 1.2, the least the constructor produces.
\<close>

definition unit_red :: Color where
  "unit_red = \<lparr>col_r = 1, col_g = 0, col_b = 0\<rparr>"

definition scenario_ring :: RingPoints where
  "scenario_ring = RingPoints_new
     \<lparr>cfg_radius = 1, cfg_thickness = 1, cfg_points = 4, cfg_falloffFactor = 0,
      cfg_minTailLength = 1 / 2, cfg_maxTailLength = 1 / 2, cfg_baseColor = unit_red\<rparr>"

text \<open>
  A clock with four hour points whose shortest tail ends just short of a quarter of the
  circle, its hour ring, and the clock reading 03:00:00.000.
\<close>

definition guard_config :: ClockSystemConfig where
  "guard_config =
     \<lparr>cfg_pointsPerRing = Some 4, cfg_minTail = Some (1 / 4 - 1 / 10000000), cfg_maxTail = None\<rparr>"

definition guard_clock :: ClockSystem where
  "guard_clock = ClockSystem_new guard_config gold sky rose"

definition guard_ring :: RingPoints where
  "guard_ring = hourRing guard_clock"

definition three_oclock :: WallClock where
  "three_oclock = \<lparr>getHours = 3, getMinutes = 0, getSeconds = 0, getMilliseconds = 0\<rparr>"

text \<open>The clock reading 00:22:19.203.\<close>

definition guard_time :: WallClock where
  "guard_time = \<lparr>getHours = 0, getMinutes = 22, getSeconds = 19, getMilliseconds = 203\<rparr>"

text \<open>The gate configuration of the scenario in the specification: three windows of ten
  seconds and linear easing.\<close>

definition scenario_gates :: PartialGatesConfig where
  "scenario_gates = \<lparr>p_hourFadeSeconds = Some 10, p_minuteFadeSeconds = Some 10,
     p_secondFadeSeconds = Some 10, p_easePower = Some 0\<rparr>"

section \<open>Properties of PresenceSystem\<close>

lemma gates_ok_default: "gates_ok default_gates"
  by (simp add: gates_ok_def default_gates_def)

lemma gates_ok_setGatesConfig: "gates_ok (gates (setGatesConfig st partial))"
  by (simp add: gates_ok_def setGatesConfig_def Let_def)

lemma gates_setPresenceLevel: "gates (setPresenceLevel st v now) = gates st"
  by (simp add: setPresenceLevel_def)

lemma gates_ok_step: "gates_ok (gates st) \<Longrightarrow> gates_ok (gates (presence_step st op))"
  by (cases op)
     (simp_all add: PresenceSystem_update_def nudgePresence_def gates_setPresenceLevel
        gates_ok_setGatesConfig)

lemma gates_ok_foldl:
  "gates_ok (gates st) \<Longrightarrow> gates_ok (gates (foldl presence_step st ops))"
  by (induction ops arbitrary: st) (simp_all add: gates_ok_step)

lemma gates_ok_run: "gates_ok (gates (presence_run now0 ops))"
  unfolding presence_run_def
  by (rule gates_ok_foldl) (simp add: PresenceSystem_new_def gates_ok_default)

lemma computeStageValue_spec:
  assumes "0 \<le> easePower g"
  shows "computeStageValue g progressed start d = Some (spec_stage (easePower g) progressed start d)"
proof -
  define t where "t = (progressed - start) / d"
  show ?thesis
  proof (cases "t \<le> 0 \<or> 1 \<le> t")
    case True
    then show ?thesis
      by (auto simp: computeStageValue_def spec_stage_def Let_def t_def)
  next
    case False
    then have lin: "0 < 1 - t" by simp
    show ?thesis
    proof (cases "easePower g \<le> 0")
      case True
      with assms have "easePower g = 0" by simp
      with False lin show ?thesis
        by (simp add: computeStageValue_def spec_stage_def Let_def t_def)
    next
      case e: False
      with assms have "1 + easePower g \<noteq> 0" by simp
      with False lin e show ?thesis
        by (simp add: computeStageValue_def spec_stage_def Let_def t_def Math_pow_def)
    qed
  qed
qed


lemma level_setPresenceLevel: "level (setPresenceLevel st v now) = clamp v 0 1"
  by (simp add: setPresenceLevel_def)

lemma clamp_unit: "0 \<le> clamp v 0 1 \<and> clamp v 0 1 \<le> 1"
  by (simp add: clamp_def)

lemma clamp_id: "lo \<le> v \<Longrightarrow> v \<le> hi \<Longrightarrow> clamp v lo hi = v"
  by (simp add: clamp_def)

lemma spec_stage_bounds:
  "0 \<le> spec_stage e P start d \<and> spec_stage e P start d \<le> 1"
  by (simp add: spec_stage_def Let_def clamp_def)

lemma spec_stage_antimono:
  assumes d: "0 < d" and e: "0 \<le> e" and le: "P1 \<le> P2"
  shows "spec_stage e P2 start d \<le> spec_stage e P1 start d"
proof -
  define t1 where "t1 = (P1 - start) / d"
  define t2 where "t2 = (P2 - start) / d"
  have t12: "t1 \<le> t2"
    unfolding t1_def t2_def using d le by (simp add: divide_right_mono)
  have s1: "spec_stage e P1 start d = (if t1 \<le> 0 then 1 else if t1 \<ge> 1 then 0 else clamp ((1 - t1) powr (1 + e)) 0 1)"
    by (simp add: spec_stage_def Let_def t1_def)
  have s2: "spec_stage e P2 start d = (if t2 \<le> 0 then 1 else if t2 \<ge> 1 then 0 else clamp ((1 - t2) powr (1 + e)) 0 1)"
    by (simp add: spec_stage_def Let_def t2_def)
  consider "t1 \<le> 0" | "1 \<le> t2" | "0 < t1" "t2 < 1" by linarith
  then show ?thesis
  proof cases
    case 1
    then have "spec_stage e P1 start d = 1" by (simp add: s1)
    then show ?thesis using spec_stage_bounds [of e P2 start d] by simp
  next
    case 2
    then have "spec_stage e P2 start d = 0" using s2 by auto
    then show ?thesis using spec_stage_bounds [of e P1 start d] by simp
  next
    case 3
    with t12 have r: "0 < t2" "t1 < 1" by linarith+
    have "(1 - t2) powr (1 + e) \<le> (1 - t1) powr (1 + e)"
      using t12 e r 3 by (intro powr_mono2) simp_all
    then have "clamp ((1 - t2) powr (1 + e)) 0 1 \<le> clamp ((1 - t1) powr (1 + e)) 0 1"
      by (simp add: clamp_def min_def max_def)
    with 3 r show ?thesis by (simp add: s1 s2)
  qed
qed

lemma levels_spec:
  assumes "gates_ok (gates st)"
  shows "getClockPresenceLevels st =
     (let g = gates st;
          progressed = (1 - clamp (level st) 0 1)
            * (hourFadeSeconds g + minuteFadeSeconds g + secondFadeSeconds g)
      in \<lparr>hour = Some (spec_stage (easePower g) progressed 0 (hourFadeSeconds g)),
          minute = Some (spec_stage (easePower g) progressed (hourFadeSeconds g) (minuteFadeSeconds g)),
          second = Some (spec_stage (easePower g) progressed
                     (hourFadeSeconds g + minuteFadeSeconds g) (secondFadeSeconds g))\<rparr>)"
  using assms by (simp add: getClockPresenceLevels_def Let_def computeStageValue_spec gates_ok_def)

text \<open>
  Claim C2. In every state whose gates satisfy the floors and whose level \<open>p\<close> lies in
  [0,1], \<open>getClockPresenceLevels\<close> returns the three stage values of the specification:
  with \<open>progressed = (1 - p) * (hourFadeSeconds + minuteFadeSeconds + secondFadeSeconds)\<close>,
  the hour stage starts at 0, the minute stage at \<open>hourFadeSeconds\<close>, the second stage at
  \<open>hourFadeSeconds + minuteFadeSeconds\<close>, and a stage with local progress \<open>t\<close> is 1 for
  \<open>t \<le> 0\<close>, 0 for \<open>t \<ge> 1\<close> and \<open>(1 - t) ^ (1 + easePower)\<close> clamped to [0,1]
  otherwise. None of the three is NaN.
\<close>

theorem getClockPresenceLevels_formula:
  assumes "gates_ok (gates st)" and "0 \<le> level st" and "level st \<le> 1"
  shows "getClockPresenceLevels st =
     (let g = gates st;
          progressed = (1 - level st)
            * (hourFadeSeconds g + minuteFadeSeconds g + secondFadeSeconds g)
      in \<lparr>hour = Some (spec_stage (easePower g) progressed 0 (hourFadeSeconds g)),
          minute = Some (spec_stage (easePower g) progressed (hourFadeSeconds g) (minuteFadeSeconds g)),
          second = Some (spec_stage (easePower g) progressed
                     (hourFadeSeconds g + minuteFadeSeconds g) (secondFadeSeconds g))\<rparr>)"
  using assms by (simp add: levels_spec clamp_id)


lemma scenario_state:
  "presence_run 0 [OpSetGatesConfig scenario_gates, OpSetPresenceLevel (1/2) 7] =
    \<lparr>level = 1/2, lastUpdate = 7, gates = \<lparr>hourFadeSeconds = 10, minuteFadeSeconds = 10, secondFadeSeconds = 10, easePower = 0\<rparr>\<rparr>"
  by (simp add: presence_run_def PresenceSystem_new_def setGatesConfig_def merge_gates_def
      scenario_gates_def setPresenceLevel_def default_gates_def clamp_def)

text \<open>The scenario of the specification: windows 10/10/10, linear easing, level 0.5.\<close>

theorem getClockPresenceLevels_formula_witness:
  "getClockPresenceLevels (presence_run 0 [OpSetGatesConfig scenario_gates, OpSetPresenceLevel (1/2) 7])
     = \<lparr>hour = Some 0, minute = Some (1/2), second = Some 1\<rparr>"
  using getClockPresenceLevels_formula
    [of "presence_run 0 [OpSetGatesConfig scenario_gates, OpSetPresenceLevel (1/2) 7]"]
  by (simp add: scenario_state gates_ok_def spec_stage_def clamp_def)


text \<open>
  Claim C4. For presence levels \<open>p1 < p2\<close> in [0,1] and every gate configuration
  satisfying the floors, each of the three stage values at \<open>p1\<close> is at most the
  corresponding value at \<open>p2\<close>.
\<close>

theorem getClockPresenceLevels_mono:
  assumes "gates_ok (gates st)" and "0 \<le> p1" and "p1 < p2" and "p2 \<le> 1"
  shows "jsnum_le (hour (getClockPresenceLevels (setPresenceLevel st p1 now1)))
                  (hour (getClockPresenceLevels (setPresenceLevel st p2 now2)))
       \<and> jsnum_le (minute (getClockPresenceLevels (setPresenceLevel st p1 now1)))
                  (minute (getClockPresenceLevels (setPresenceLevel st p2 now2)))
       \<and> jsnum_le (second (getClockPresenceLevels (setPresenceLevel st p1 now1)))
                  (second (getClockPresenceLevels (setPresenceLevel st p2 now2)))"
proof -
  let ?g = "gates st"
  let ?T = "hourFadeSeconds ?g + minuteFadeSeconds ?g + secondFadeSeconds ?g"
  from assms(1) have pos: "0 < hourFadeSeconds ?g" "0 < minuteFadeSeconds ?g"
      "0 < secondFadeSeconds ?g" and e: "0 \<le> easePower ?g"
    by (simp_all add: gates_ok_def)
  have c: "clamp p1 0 1 = p1" "clamp p2 0 1 = p2"
    using assms by (simp_all add: clamp_id)
  have "(1 - p2) * ?T \<le> (1 - p1) * ?T"
    using pos assms(3) by (intro mult_right_mono) simp_all
  note prog = this
  have ok1: "gates_ok (gates (setPresenceLevel st p1 now1))"
    and ok2: "gates_ok (gates (setPresenceLevel st p2 now2))"
    using assms(1) by (simp_all add: gates_setPresenceLevel)
  show ?thesis
    using spec_stage_antimono [OF pos(1) e prog, of 0]
      spec_stage_antimono [OF pos(2) e prog, of "hourFadeSeconds ?g"]
      spec_stage_antimono [OF pos(3) e prog, of "hourFadeSeconds ?g + minuteFadeSeconds ?g"]
    by (simp add: levels_spec [OF ok1] levels_spec [OF ok2] Let_def gates_setPresenceLevel
        level_setPresenceLevel c jsnum_le_def)
qed

theorem getClockPresenceLevels_mono_witness:
  "gates_ok (gates (PresenceSystem_new 0)) \<and> (0::real) \<le> 1/4 \<and> (1/4::real) < 1/2 \<and> (1/2::real) \<le> 1
   \<and> jsnum_le (minute (getClockPresenceLevels (setPresenceLevel (PresenceSystem_new 0) (1/4) 1)))
               (minute (getClockPresenceLevels (setPresenceLevel (PresenceSystem_new 0) (1/2) 2)))"
  using getClockPresenceLevels_mono [of "PresenceSystem_new 0" "1/4" "1/2" 1 2]
  by (simp add: PresenceSystem_new_def gates_ok_default)

text \<open>
  Claim C5. When \<open>progressed = (1 - p) * (hourFadeSeconds + minuteFadeSeconds +
  secondFadeSeconds)\<close> lies in the half-open interval from \<open>hourFadeSeconds\<close> to
  \<open>hourFadeSeconds + minuteFadeSeconds\<close>, the hour value is 0 and the second value is 1.
\<close>

theorem getClockPresenceLevels_sequential:
  assumes "gates_ok (gates st)"
    and "progressed = (1 - clamp (level st) 0 1)
           * (hourFadeSeconds (gates st) + minuteFadeSeconds (gates st) + secondFadeSeconds (gates st))"
    and "hourFadeSeconds (gates st) \<le> progressed"
    and "progressed < hourFadeSeconds (gates st) + minuteFadeSeconds (gates st)"
  shows "hour (getClockPresenceLevels st) = Some 0 \<and> second (getClockPresenceLevels st) = Some 1"
proof -
  let ?g = "gates st"
  from assms(1) have pos: "0 < hourFadeSeconds ?g" "0 < secondFadeSeconds ?g"
    by (simp_all add: gates_ok_def)
  have h: "1 \<le> progressed / hourFadeSeconds ?g"
    using pos(1) assms(3) by (simp add: le_divide_eq)
  have s: "(progressed - (hourFadeSeconds ?g + minuteFadeSeconds ?g)) / secondFadeSeconds ?g \<le> 0"
    using pos(2) assms(4) by (simp add: divide_le_0_iff)
  from h have "\<not> progressed / hourFadeSeconds ?g \<le> 0" by linarith
  with h s show ?thesis
    unfolding getClockPresenceLevels_def computeStageValue_def Let_def assms(2) [symmetric]
    by simp
qed

theorem getClockPresenceLevels_sequential_witness:
  "hour (getClockPresenceLevels (presence_run 0 [OpSetGatesConfig scenario_gates, OpSetPresenceLevel (1/2) 7])) = Some 0
   \<and> second (getClockPresenceLevels (presence_run 0 [OpSetGatesConfig scenario_gates, OpSetPresenceLevel (1/2) 7])) = Some 1"
  using getClockPresenceLevels_sequential
    [of "presence_run 0 [OpSetGatesConfig scenario_gates, OpSetPresenceLevel (1/2) 7]" 15]
  by (simp add: scenario_state gates_ok_def clamp_def)

text \<open>
  Claim C6. For every gate configuration satisfying the floors, the three values are
  exactly 1 at presence level 1 and exactly 0 at presence level 0.
\<close>

theorem getClockPresenceLevels_extremes:
  assumes "gates_ok (gates st)"
  shows "getClockPresenceLevels (setPresenceLevel st 1 now) = \<lparr>hour = Some 1, minute = Some 1, second = Some 1\<rparr>
       \<and> getClockPresenceLevels (setPresenceLevel st 0 now) = \<lparr>hour = Some 0, minute = Some 0, second = Some 0\<rparr>"
proof -
  let ?g = "gates st"
  from assms have pos: "0 < hourFadeSeconds ?g" "0 < minuteFadeSeconds ?g"
      "0 < secondFadeSeconds ?g"
    by (simp_all add: gates_ok_def)
  have one: "getClockPresenceLevels (setPresenceLevel st 1 now) = \<lparr>hour = Some 1, minute = Some 1, second = Some 1\<rparr>"
    using pos
    by (simp add: getClockPresenceLevels_def computeStageValue_def Let_def setPresenceLevel_def
        clamp_def divide_le_0_iff)
  have a: "1 \<le> (hourFadeSeconds ?g + minuteFadeSeconds ?g + secondFadeSeconds ?g) / hourFadeSeconds ?g"
    using pos by (simp add: le_divide_eq)
  have b: "1 \<le> (minuteFadeSeconds ?g + secondFadeSeconds ?g) / minuteFadeSeconds ?g"
    using pos by (simp add: le_divide_eq)
  have a': "\<not> (hourFadeSeconds ?g + minuteFadeSeconds ?g + secondFadeSeconds ?g) / hourFadeSeconds ?g \<le> 0"
    using a by linarith
  have b': "\<not> (minuteFadeSeconds ?g + secondFadeSeconds ?g) / minuteFadeSeconds ?g \<le> 0"
    using b by linarith
  have zero: "getClockPresenceLevels (setPresenceLevel st 0 now) = \<lparr>hour = Some 0, minute = Some 0, second = Some 0\<rparr>"
    using pos a b a' b'
    by (simp add: getClockPresenceLevels_def computeStageValue_def Let_def setPresenceLevel_def
        clamp_def)
  from one zero show ?thesis ..
qed

theorem getClockPresenceLevels_extremes_witness:
  "gates_ok (gates (PresenceSystem_new 0))
   \<and> getClockPresenceLevels (setPresenceLevel (PresenceSystem_new 0) 1 5) = \<lparr>hour = Some 1, minute = Some 1, second = Some 1\<rparr>
   \<and> getClockPresenceLevels (setPresenceLevel (PresenceSystem_new 0) 0 5) = \<lparr>hour = Some 0, minute = Some 0, second = Some 0\<rparr>"
  using getClockPresenceLevels_extremes [of "PresenceSystem_new 0" 5]
  by (simp add: PresenceSystem_new_def gates_ok_default)

section \<open>Properties of ClockSystem\<close>


lemma clock_ms:
  "(n div 3600000 mod 24 mod 12) * 3600000 + (n div 60000 mod 60) * 60000
     + (n div 1000 mod 60) * 1000 + n mod 1000 = n mod 43200000" for n :: nat
proof -
  have a: "n mod 43200000 = 3600000 * (n div 3600000 mod 12) + n mod 3600000"
    using mod_mult2_eq [of n 3600000 12] by simp
  have b: "n mod 3600000 = 60000 * (n div 60000 mod 60) + n mod 60000"
    using mod_mult2_eq [of n 60000 60] by simp
  have c: "n mod 60000 = 1000 * (n div 1000 mod 60) + n mod 1000"
    using mod_mult2_eq [of n 1000 60] by simp
  have d: "n div 3600000 mod 24 mod 12 = n div 3600000 mod 12"
    by (simp add: mod_mod_cancel)
  show ?thesis by (simp add: a b c d)
qed

lemma hourProgress_clock_at: "hourProgress (clock_at n) = real (n mod 43200000) / 43200000"
proof -
  define H where "H = real (n div 3600000 mod 24 mod 12)"
  define M where "M = real (n div 60000 mod 60)"
  define S where "S = real (n div 1000 mod 60)"
  define L where "L = real (n mod 1000)"
  have "real (n mod 43200000) = real ((n div 3600000 mod 24 mod 12) * 3600000 + (n div 60000 mod 60) * 60000
     + (n div 1000 mod 60) * 1000 + n mod 1000)"
    by (simp only: clock_ms)
  also have "\<dots> = H * 3600000 + M * 60000 + S * 1000 + L"
    by (simp add: H_def M_def S_def L_def)
  finally have r: "real (n mod 43200000) = H * 3600000 + M * 60000 + S * 1000 + L" .
  have "hourProgress (clock_at n) = (H + M / 60 + S / 3600 + L / 3600000) / 12"
    by (simp add: hourProgress_def clock_at_def H_def M_def S_def L_def)
  also have "\<dots> = (H * 3600000 + M * 60000 + S * 1000 + L) / 43200000"
    by (simp add: add_divide_distrib)
  finally show ?thesis by (simp only: r)
qed

lemma hourRing_update:
  "hourRing (ClockSystem_update cs dt now) =
     updateFill (hourRing cs) (hourProgress now * tau)
       (globalIntensity cs * distanceFactor cs * (1 + audioLow cs * 0.6))
       (case hourPresence cs of None \<Rightarrow> presenceLevel cs | Some p \<Rightarrow> p)
       (colorMode cs)"
  by (simp add: ClockSystem_update_def Let_def)

lemma hourProgress_anchored_half_past_three:
  "hourProgress_anchored \<lparr>getHours = 3, getMinutes = 30, getSeconds = 0, getMilliseconds = 0\<rparr> = 1 / 4"
  "hourProgress \<lparr>getHours = 3, getMinutes = 30, getSeconds = 0, getMilliseconds = 0\<rparr> = 7 / 24"
  by (simp_all add: hourProgress_anchored_def hourProgress_def)

text \<open>
  Claim C7. \<open>update\<close> paints the hour ring with the head at
  \<open>(hours mod 12 + minutes / 60 + (seconds + ms / 1000) / 3600) / 12\<close> of the full turn.
  At \<open>n\<close> milliseconds after midnight that fraction is \<open>(n mod 43200000) / 43200000\<close>:
  it grows by the same amount with every millisecond, across the hour boundaries too.
\<close>

theorem update_hour_progress:
  "hourRing (ClockSystem_update cs dt now) =
     updateFill (hourRing cs)
       ((real (getHours now mod 12) + real (getMinutes now) / 60
          + (real (getSeconds now) + real (getMilliseconds now) / 1000) / 3600) / 12 * tau)
       (globalIntensity cs * distanceFactor cs * (1 + audioLow cs * 0.6))
       (case hourPresence cs of None \<Rightarrow> presenceLevel cs | Some p \<Rightarrow> p)
       (colorMode cs)
   \<and> hourProgress (clock_at n) = real (n mod 43200000) / 43200000"
proof -
  have eq: "(real (getHours now mod 12) + real (getMinutes now) / 60
          + (real (getSeconds now) + real (getMilliseconds now) / 1000) / 3600) / 12 = hourProgress now"
    by (simp add: hourProgress_def field_simps)
  show ?thesis
    unfolding eq using hourRing_update [of cs dt now] hourProgress_clock_at [of n]
    by (rule conjI)
qed

lemma no_overrides_step:
  "no_overrides cs \<Longrightarrow> \<not> is_setRingPresenceLevels op \<Longrightarrow> no_overrides (clock_step cs op)"
  by (cases op)
     (simp_all add: no_overrides_def ClockSystem_setPresenceLevel_def
        clearRingPresenceOverrides_def setGlobalIntensity_def setDistanceFactor_def
        setAudioLevels_def setColorMode_def ClockSystem_setThicknessScale_def
        setRingThicknessScales_def ClockSystem_update_def Let_def)

lemma no_overrides_foldl:
  "no_overrides cs \<Longrightarrow> \<forall>op \<in> set ops. \<not> is_setRingPresenceLevels op
     \<Longrightarrow> no_overrides (foldl clock_step cs ops)"
  by (induction ops arbitrary: cs) (simp_all add: no_overrides_step)

lemma no_overrides_setPresenceLevel: "no_overrides (ClockSystem_setPresenceLevel cs v)"
  by (simp add: no_overrides_def ClockSystem_setPresenceLevel_def clearRingPresenceOverrides_def)

text \<open>
  Claim C10. Whatever overrides were set before, \<open>ClockSystem.setPresenceLevel(v)\<close>
  leaves all three per-ring overrides cleared; the update that follows paints the hour,
  minute and second rings with the presence \<open>clamp(v, 0, 1)\<close>; and the overrides stay
  cleared through every sequence of calls that has no \<open>setRingPresenceLevels\<close> in it.
\<close>

theorem setPresenceLevel_clears_overrides:
  "no_overrides (ClockSystem_setPresenceLevel cs v)
   \<and> ClockSystem_update (ClockSystem_setPresenceLevel cs v) dt now =
       (ClockSystem_setPresenceLevel cs v)
         \<lparr>hourRing := updateFill (hourRing cs) (hourProgress now * tau)
             (globalIntensity cs * distanceFactor cs * (1 + audioLow cs * 0.6)) (clamp v 0 1) (colorMode cs),
          minuteRing := updateFill (minuteRing cs) (minuteProgress now * tau)
             (globalIntensity cs * distanceFactor cs * (1 + audioMid cs * 0.6)) (clamp v 0 1) (colorMode cs),
          secondRing := updateFill (secondRing cs) (secondProgress now * tau)
             (globalIntensity cs * distanceFactor cs * (1 + audioHigh cs * 0.6)) (clamp v 0 1) (colorMode cs)\<rparr>
   \<and> ((\<forall>op \<in> set ops. \<not> is_setRingPresenceLevels op) \<longrightarrow>
        no_overrides (foldl clock_step (ClockSystem_setPresenceLevel cs v) ops))"
  by (simp add: no_overrides_setPresenceLevel no_overrides_foldl)
     (simp add: ClockSystem_update_def ClockSystem_setPresenceLevel_def
        clearRingPresenceOverrides_def Let_def)

text \<open>Overrides set to 1, then cleared by \<open>setPresenceLevel(0.5)\<close> and still clear after
  a setter and an update.\<close>

theorem setPresenceLevel_clears_overrides_witness:
  "\<not> is_setRingPresenceLevels (CSetGlobalIntensity 2)
   \<and> \<not> is_setRingPresenceLevels (CUpdate 0 (clock_at 0))
   \<and> hourPresence (setRingPresenceLevels default_clock 1 1 1) = Some 1
   \<and> no_overrides (foldl clock_step
        (ClockSystem_setPresenceLevel (setRingPresenceLevels default_clock 1 1 1) (1/2))
        [CSetGlobalIntensity 2, CUpdate 0 (clock_at 0)])"
  using setPresenceLevel_clears_overrides
    [of "setRingPresenceLevels default_clock 1 1 1" "1/2" 0 "clock_at 0"
        "[CSetGlobalIntensity 2, CUpdate 0 (clock_at 0)]"]
  by (simp add: setRingPresenceLevels_def clamp_def)

section \<open>Properties of RingPoints\<close>

lemma tau_pos: "0 < tau"
  by (simp add: tau_def)

lemma tau_ge_4: "4 \<le> tau"
  using pi_ge_two by (simp add: tau_def)

lemma tau_less_8: "tau < 8"
  using pi_less_4 by (simp add: tau_def)

lemma js_rem_alt:
  assumes "0 < y"
  shows "js_rem x y = y * (x / y - of_int (trunc (x / y)))"
  using assms by (simp add: js_rem_def algebra_simps)

lemma js_rem_nonneg:
  assumes "0 < y" and "0 \<le> x"
  shows "0 \<le> js_rem x y" and "js_rem x y < y"
proof -
  define q where "q = x / y"
  have q: "0 \<le> q" using assms by (simp add: q_def)
  then have tr: "trunc q = \<lfloor>q\<rfloor>" by (simp add: trunc_def)
  have lo: "0 \<le> q - of_int \<lfloor>q\<rfloor>" and hi: "q - of_int \<lfloor>q\<rfloor> < 1" by linarith+
  have eq: "js_rem x y = y * (q - of_int \<lfloor>q\<rfloor>)"
    using js_rem_alt [OF assms(1), of x] by (simp add: q_def [symmetric] tr)
  show "0 \<le> js_rem x y" unfolding eq using assms(1) lo by (intro mult_nonneg_nonneg) simp_all
  have "y * (q - of_int \<lfloor>q\<rfloor>) < y * 1"
    using assms(1) hi by (intro mult_strict_left_mono)
  then show "js_rem x y < y" unfolding eq by simp
qed

lemma js_rem_neg:
  assumes "0 < y" and "x < 0"
  shows "- y < js_rem x y" and "js_rem x y \<le> 0"
proof -
  define q where "q = x / y"
  have q: "q < 0" using assms by (simp add: q_def divide_less_0_iff)
  then have tr: "trunc q = \<lceil>q\<rceil>" by (simp add: trunc_def)
  have lo: "- 1 < q - of_int \<lceil>q\<rceil>" and hi: "q - of_int \<lceil>q\<rceil> \<le> 0" by linarith+
  have eq: "js_rem x y = y * (q - of_int \<lceil>q\<rceil>)"
    using js_rem_alt [OF assms(1), of x] by (simp add: q_def [symmetric] tr)
  have "y * (- 1) < y * (q - of_int \<lceil>q\<rceil>)"
    using assms(1) lo by (intro mult_strict_left_mono)
  then show "- y < js_rem x y" unfolding eq by simp
  show "js_rem x y \<le> 0" unfolding eq using assms(1) hi by (simp add: mult_le_0_iff)
qed

lemma js_rem_mult:
  assumes "0 < y"
  shows "js_rem (q * y) y = (q - of_int (trunc q)) * y"
  using assms by (simp add: js_rem_def algebra_simps)

lemma normalize_head_range: "0 \<le> normalize_head h \<and> normalize_head h < tau"
proof (cases "0 \<le> h")
  case True
  then show ?thesis
    using js_rem_nonneg [OF tau_pos, of h] by (simp add: normalize_head_def Let_def)
next
  case False
  then have "- tau < js_rem h tau" "js_rem h tau \<le> 0"
    using js_rem_neg [OF tau_pos, of h] by simp_all
  then show ?thesis
    using tau_pos by (auto simp: normalize_head_def Let_def)
qed

lemma delta_back_range:
  assumes "0 \<le> head" and "a < tau"
  shows "0 \<le> delta_back head a" and "delta_back head a < tau"
  using js_rem_nonneg [OF tau_pos, of "head - a + tau"] assms
  by (simp_all add: delta_back_def)

lemma delta_back_head: "delta_back head head = 0"
  using tau_pos by (simp add: delta_back_def js_rem_def trunc_def)

lemma lerp_lower:
  assumes "c \<le> x" and "c \<le> y" and "0 \<le> t" and "t \<le> 1"
  shows "c \<le> lerp x y t"
proof -
  have "(1 - t) * c \<le> (1 - t) * x" using assms by (intro mult_left_mono) simp_all
  moreover have "t * c \<le> t * y" using assms by (intro mult_left_mono) simp_all
  ultimately have "(1 - t) * c + t * c \<le> lerp x y t" by (simp add: lerp_def)
  then show ?thesis by (simp add: algebra_simps)
qed

lemma tail_arc_lower: "1 / 10000 \<le> tail_arc ring pl"
  unfolding tail_arc_def Let_def
  by (rule lerp_lower) (simp_all add: clamp_def)

lemma tail_arc_pos: "0 < tail_arc ring pl"
  using tail_arc_lower [of ring pl] by simp


lemma length_write_point: "length (write_point b v i cols) = length cols"
  by (simp add: write_point_def Let_def)

lemma nth_write_point_same:
  assumes "i * 3 + 2 < length cols"
  shows "write_point b v i cols ! (i * 3) = map_option (\<lambda>x. col_r b * x) v"
    and "write_point b v i cols ! (i * 3 + 1) = map_option (\<lambda>x. col_g b * x) v"
    and "write_point b v i cols ! (i * 3 + 2) = map_option (\<lambda>x. col_b b * x) v"
  using assms by (simp_all add: write_point_def Let_def)

lemma nth_write_point_other:
  assumes "k < i * 3 \<or> i * 3 + 2 < k"
  shows "write_point b v i cols ! k = cols ! k"
  using assms by (auto simp: write_point_def Let_def)

lemma fold_write_point:
  assumes "length cols = 3 * n" and "m \<le> n"
  shows "length (fold (\<lambda>i. write_point b (f i) i) [0..<m] cols) = 3 * n
    \<and> (\<forall>i<m. fold (\<lambda>i. write_point b (f i) i) [0..<m] cols ! (i * 3) = map_option (\<lambda>x. col_r b * x) (f i)
           \<and> fold (\<lambda>i. write_point b (f i) i) [0..<m] cols ! (i * 3 + 1) = map_option (\<lambda>x. col_g b * x) (f i)
           \<and> fold (\<lambda>i. write_point b (f i) i) [0..<m] cols ! (i * 3 + 2) = map_option (\<lambda>x. col_b b * x) (f i))"
  using assms(2)
proof (induction m)
  case 0
  then show ?case using assms(1) by simp
next
  case (Suc m)
  let ?prev = "fold (\<lambda>i. write_point b (f i) i) [0..<m] cols"
  from Suc have len: "length ?prev = 3 * n"
    and old: "\<And>i. i < m \<Longrightarrow> ?prev ! (i * 3) = map_option (\<lambda>x. col_r b * x) (f i)
           \<and> ?prev ! (i * 3 + 1) = map_option (\<lambda>x. col_g b * x) (f i)
           \<and> ?prev ! (i * 3 + 2) = map_option (\<lambda>x. col_b b * x) (f i)"
    by simp_all
  have step: "fold (\<lambda>i. write_point b (f i) i) [0..<Suc m] cols = write_point b (f m) m ?prev"
    by simp
  have inb: "m * 3 + 2 < length ?prev" using Suc.prems len by simp
  show ?case
  proof (intro conjI allI impI)
    show "length (fold (\<lambda>i. write_point b (f i) i) [0..<Suc m] cols) = 3 * n"
      by (simp only: step length_write_point len)
  next
    fix i assume "i < Suc m"
    then consider "i = m" | "i < m" by linarith
    then show "fold (\<lambda>i. write_point b (f i) i) [0..<Suc m] cols ! (i * 3) = map_option (\<lambda>x. col_r b * x) (f i)"
    proof cases
      case 1 then show ?thesis by (simp only: step nth_write_point_same(1) [OF inb])
    next
      case 2
      then have "write_point b (f m) m ?prev ! (i * 3) = ?prev ! (i * 3)"
        by (intro nth_write_point_other) simp
      then show ?thesis using old [OF 2] unfolding step by simp
    qed
  next
    fix i assume "i < Suc m"
    then consider "i = m" | "i < m" by linarith
    then show "fold (\<lambda>i. write_point b (f i) i) [0..<Suc m] cols ! (i * 3 + 1) = map_option (\<lambda>x. col_g b * x) (f i)"
    proof cases
      case 1 then show ?thesis by (simp only: step nth_write_point_same(2) [OF inb])
    next
      case 2
      then have "write_point b (f m) m ?prev ! (i * 3 + 1) = ?prev ! (i * 3 + 1)"
        by (intro nth_write_point_other) simp
      then show ?thesis using old [OF 2] unfolding step by simp
    qed
  next
    fix i assume "i < Suc m"
    then consider "i = m" | "i < m" by linarith
    then show "fold (\<lambda>i. write_point b (f i) i) [0..<Suc m] cols ! (i * 3 + 2) = map_option (\<lambda>x. col_b b * x) (f i)"
    proof cases
      case 1 then show ?thesis by (simp only: step nth_write_point_same(3) [OF inb])
    next
      case 2
      then have "write_point b (f m) m ?prev ! (i * 3 + 2) = ?prev ! (i * 3 + 2)"
        by (intro nth_write_point_other) simp
      then show ?thesis using old [OF 2] unfolding step by simp
    qed
  qed
qed

lemma updateFill_colors:
  assumes "length (colors ring) = 3 * length (angles ring)" and "i < length (angles ring)"
  shows "colors (updateFill ring h s pl mode) ! (i * 3)
           = map_option (\<lambda>x. col_r (baseColor ring) * x) (ring_intensity ring h s pl i)"
    and "colors (updateFill ring h s pl mode) ! (i * 3 + 1)
           = map_option (\<lambda>x. col_g (baseColor ring) * x) (ring_intensity ring h s pl i)"
    and "colors (updateFill ring h s pl mode) ! (i * 3 + 2)
           = map_option (\<lambda>x. col_b (baseColor ring) * x) (ring_intensity ring h s pl i)"
  using fold_write_point [OF assms(1) order_refl, of "baseColor ring" "ring_intensity ring h s pl"]
    assms(2)
  by (simp_all add: updateFill_def Let_def)

lemma updateFill_fields:
  "angles (updateFill ring h s pl mode) = angles ring"
  "baseColor (updateFill ring h s pl mode) = baseColor ring"
  "falloffPower (updateFill ring h s pl mode) = falloffPower ring"
  "minTailLengthFraction (updateFill ring h s pl mode) = minTailLengthFraction ring"
  "maxTailLengthFraction (updateFill ring h s pl mode) = maxTailLengthFraction ring"
  by (simp_all add: updateFill_def Let_def)

lemma length_updateFill:
  assumes "length (colors ring) = 3 * length (angles ring)"
  shows "length (colors (updateFill ring h s pl mode)) = 3 * length (angles ring)"
  using fold_write_point [OF assms order_refl, of "baseColor ring" "ring_intensity ring h s pl"]
  by (simp add: updateFill_def Let_def)


lemma point_intensity_in_arc:
  assumes "0 \<le> delta_back head a" and "delta_back head a \<le> A" and "0 < A"
    and "0 < p" and "0 \<le> s"
  shows "point_intensity head A p s a = Some (spec_intensity head A s TAIL_FLOOR p a)"
proof -
  define d where "d = delta_back head a"
  define t where "t = 1 - d / A"
  have t: "0 \<le> t" "t \<le> 1" using assms(1-3) by (simp_all add: t_def d_def)
  have guard: "d \<le> A + EPS" "\<not> A + EPS < d" using assms(2) by (simp_all add: d_def EPS_def)
  have pw: "Math_pow t p = Some (t powr p)"
    using t(1) assms(4) by (cases "t = 0") (simp_all add: Math_pow_def)
  define x where "x = (TAIL_FLOOR + (1 - TAIL_FLOOR) * t powr p) * s"
  have "0 \<le> TAIL_FLOOR + (1 - TAIL_FLOOR) * t powr p" by (simp add: TAIL_FLOOR_def)
  then have x: "0 \<le> x" using assms(5) by (simp add: x_def)
  have cl: "(if 1 < x then 1 else x) = clamp x 0 1" using x by (simp add: clamp_def)
  have "point_intensity head A p s a = Some (if 1 < x then 1 else x)"
    using assms(1) guard pw by (simp add: point_intensity_def Let_def d_def t_def x_def)
  moreover have "spec_intensity head A s TAIL_FLOOR p a = clamp x 0 1"
    using guard by (simp add: spec_intensity_def Let_def d_def t_def x_def)
  ultimately show ?thesis by (simp add: cl)
qed

lemma point_intensity_beyond:
  assumes "A + EPS < delta_back head a"
  shows "point_intensity head A p s a = Some (spec_intensity head A s f p a)"
  using assms by (simp add: point_intensity_def spec_intensity_def Let_def clamp_def)

lemma point_intensity_band:
  assumes "0 < A" and "A < delta_back head a" and "delta_back head a \<le> A + EPS"
    and "p \<noteq> of_int \<lfloor>p\<rfloor>"
  shows "point_intensity head A p s a = None"
proof -
  define t where "t = 1 - delta_back head a / A"
  have t: "t < 0" using assms(1,2) by (simp add: t_def)
  from assms(4) have "p \<noteq> 0" by auto
  with t assms(4) have "Math_pow t p = None" by (simp add: Math_pow_def)
  moreover have "0 \<le> delta_back head a" using assms(1,2) by simp
  ultimately show ?thesis
    using assms(3) by (simp add: point_intensity_def Let_def t_def)
qed

lemma Math_pow_le_one:
  assumes "Math_pow t p = Some sh" and "- 1 \<le> t" and "t \<le> 1" and "0 \<le> p"
  shows "sh \<le> 1"
proof -
  consider "p = 0" | "p \<noteq> 0" "0 < t" | "p \<noteq> 0" "t = 0" | "p \<noteq> 0" "t < 0" by linarith
  then show ?thesis
  proof cases
    case 1 with assms(1) show ?thesis by (simp add: Math_pow_def)
  next
    case 2
    with assms(1) have "sh = t powr p" by (simp add: Math_pow_def)
    then show ?thesis using assms(3,4) 2 by (simp add: powr_le1)
  next
    case 3 with assms(1) show ?thesis by (auto simp: Math_pow_def split: if_splits)
  next
    case 4
    with assms(1) have sh: "sh = t powi \<lfloor>p\<rfloor>"
      by (auto simp: Math_pow_def split: if_splits)
    have "0 \<le> \<lfloor>p\<rfloor>" using assms(4) by simp
    then have "sh = t ^ nat \<lfloor>p\<rfloor>" by (simp add: sh power_int_def)
    moreover have "\<bar>t ^ nat \<lfloor>p\<rfloor>\<bar> \<le> 1"
      using assms(2,3) by (simp add: power_abs power_le_one abs_le_iff)
    ultimately show ?thesis by linarith
  qed
qed

lemma point_intensity_le:
  assumes "point_intensity head A p s a = Some v" and "EPS \<le> A" and "0 \<le> p" and "0 \<le> s"
  shows "v \<le> min 1 s"
proof (cases "0 \<le> delta_back head a \<and> delta_back head a \<le> A + EPS")
  case False
  with assms(1) have "v = 0" by (auto simp: point_intensity_def Let_def)
  then show ?thesis using assms(4) by simp
next
  case True
  define t where "t = 1 - delta_back head a / A"
  have Apos: "0 < A" using assms(2) by (simp add: EPS_def)
  from True obtain sh where sh: "Math_pow t p = Some sh"
    and v: "v = (let x = (TAIL_FLOOR + (1 - TAIL_FLOOR) * sh) * s in if 1 < x then 1 else x)"
    using assms(1) by (auto simp: point_intensity_def Let_def t_def)
  have "delta_back head a / A \<le> (A + EPS) / A"
    using True Apos by (simp add: divide_right_mono)
  also have "\<dots> = 1 + EPS / A" using Apos by (simp add: add_divide_distrib)
  also have "\<dots> \<le> 2" using assms(2) Apos by simp
  finally have lo: "- 1 \<le> t" by (simp add: t_def)
  have hi: "t \<le> 1" using True Apos by (simp add: t_def)
  have "sh \<le> 1" using Math_pow_le_one [OF sh lo hi assms(3)] .
  then have "(1 - TAIL_FLOOR) * sh \<le> (1 - TAIL_FLOOR) * 1"
    by (intro mult_left_mono) (simp_all add: TAIL_FLOOR_def)
  then have "TAIL_FLOOR + (1 - TAIL_FLOOR) * sh \<le> 1" by simp
  then have "(TAIL_FLOOR + (1 - TAIL_FLOOR) * sh) * s \<le> 1 * s"
    using assms(4) by (intro mult_right_mono)
  then show ?thesis unfolding v Let_def by simp
qed

lemma point_intensity_head:
  assumes "0 < A" and "0 \<le> s"
  shows "point_intensity head A p s head = Some (min 1 s)"
proof -
  have "Math_pow 1 p = Some 1" by (simp add: Math_pow_def)
  then show ?thesis
    using assms by (simp add: point_intensity_def Let_def delta_back_head EPS_def min_def)
qed


lemma lerp_range:
  assumes "x \<le> y" and "0 \<le> t" and "t \<le> 1"
  shows "x \<le> lerp x y t" and "lerp x y t \<le> y"
proof -
  have "lerp x y t = x + t * (y - x)" by (simp add: lerp_def algebra_simps)
  moreover have "0 \<le> t * (y - x)" using assms by simp
  moreover have "t * (y - x) \<le> 1 * (y - x)" using assms by (intro mult_right_mono) simp_all
  ultimately show "x \<le> lerp x y t" and "lerp x y t \<le> y" by simp_all
qed

lemma ring_ok_new: "ring_ok (RingPoints_new config)"
proof -
  have f: "1.2 \<le> lerp 1.2 3.0 (clamp (cfg_falloffFactor config) 0 1)"
      "lerp 1.2 3.0 (clamp (cfg_falloffFactor config) 0 1) \<le> 3"
    using lerp_range [of "1.2" "3.0" "clamp (cfg_falloffFactor config) 0 1"]
    by (simp_all add: clamp_def)
  have a: "0 \<le> real i / real (cfg_points config) * pi * 2
      \<and> real i / real (cfg_points config) * pi * 2 < tau" if "i < cfg_points config" for i
  proof -
    have "real i / real (cfg_points config) < 1" using that by simp
    then have "real i / real (cfg_points config) * tau < 1 * tau"
      using tau_pos by (intro mult_strict_right_mono)
    then show ?thesis by (simp add: tau_def mult.assoc)
  qed
  show ?thesis
    using f a
    by (simp add: ring_ok_def RingPoints_new_def Let_def clamp_def list_all_iff)
qed

lemma ring_ok_updateFill: "ring_ok ring \<Longrightarrow> ring_ok (updateFill ring h s pl mode)"
  by (simp add: ring_ok_def updateFill_fields length_updateFill)

text \<open>
  What \<open>updateFill\<close> writes for a point outside the epsilon guard. With the head
  \<open>h\<close> the head angle brought into \<open>[0, 2\<pi>)\<close>, the tail arc \<open>A\<close> derived from the
  presence level, the scale \<open>max(0, intensityScale)\<close> and the tail floor 0.031: for a point
  whose \<open>deltaBack\<close> is at most \<open>A\<close> or exceeds \<open>A + EPS\<close>, the three channels are the
  base colour's channels times the intensity of the specification.
\<close>

lemma updateFill_outside_guard:
  assumes "ring_ok ring" and "i < length (angles ring)"
    and "delta_back (normalize_head headAngle) (angles ring ! i) \<le> tail_arc ring pl
         \<or> tail_arc ring pl + EPS < delta_back (normalize_head headAngle) (angles ring ! i)"
  shows "colors (updateFill ring headAngle intensityScale pl mode) ! (i * 3) =
           Some (col_r (baseColor ring) *
             spec_intensity (normalize_head headAngle) (tail_arc ring pl) (max 0 intensityScale)
               TAIL_FLOOR (falloffPower ring) (angles ring ! i))
       \<and> colors (updateFill ring headAngle intensityScale pl mode) ! (i * 3 + 1) =
           Some (col_g (baseColor ring) *
             spec_intensity (normalize_head headAngle) (tail_arc ring pl) (max 0 intensityScale)
               TAIL_FLOOR (falloffPower ring) (angles ring ! i))
       \<and> colors (updateFill ring headAngle intensityScale pl mode) ! (i * 3 + 2) =
           Some (col_b (baseColor ring) *
             spec_intensity (normalize_head headAngle) (tail_arc ring pl) (max 0 intensityScale)
               TAIL_FLOOR (falloffPower ring) (angles ring ! i))"
proof -
  let ?head = "normalize_head headAngle"
  let ?A = "tail_arc ring pl"
  let ?a = "angles ring ! i"
  from assms(1) have len: "length (colors ring) = 3 * length (angles ring)"
    and p: "0 < falloffPower ring"
    and ang: "list_all (\<lambda>a. 0 \<le> a \<and> a < tau) (angles ring)"
    by (simp_all add: ring_ok_def)
  from ang assms(2) have "?a < tau" by (simp add: list_all_length)
  then have d0: "0 \<le> delta_back ?head ?a"
    using normalize_head_range [of headAngle] by (intro delta_back_range) simp_all
  have "point_intensity ?head ?A (falloffPower ring) (max 0 intensityScale) ?a =
      Some (spec_intensity ?head ?A (max 0 intensityScale) TAIL_FLOOR (falloffPower ring) ?a)"
    using assms(3)
  proof
    assume "delta_back ?head ?a \<le> ?A"
    then show ?thesis
      using d0 tail_arc_pos p by (intro point_intensity_in_arc) simp_all
  next
    assume "?A + EPS < delta_back ?head ?a"
    then show ?thesis by (rule point_intensity_beyond)
  qed
  then have "ring_intensity ring headAngle intensityScale pl i =
      Some (spec_intensity ?head ?A (max 0 intensityScale) TAIL_FLOOR (falloffPower ring) ?a)"
    by (simp add: ring_intensity_def)
  then show ?thesis
    using updateFill_colors [OF len assms(2), of headAngle intensityScale pl mode] by simp
qed

text \<open>
  The intensity of a point is NaN exactly when the point lies inside the epsilon guard
  beyond the tail arc and the falloff power is not an integer.
\<close>

lemma Math_pow_None_iff:
  assumes "0 < p"
  shows "Math_pow t p = None \<longleftrightarrow> t < 0 \<and> p \<noteq> of_int \<lfloor>p\<rfloor>"
  using assms by (auto simp: Math_pow_def)

lemma ring_intensity_nan_iff:
  assumes "ring_ok ring"
  shows "ring_intensity ring headAngle intensityScale pl i = None \<longleftrightarrow>
     tail_arc ring pl < delta_back (normalize_head headAngle) (angles ring ! i)
     \<and> delta_back (normalize_head headAngle) (angles ring ! i) \<le> tail_arc ring pl + EPS
     \<and> falloffPower ring \<noteq> of_int \<lfloor>falloffPower ring\<rfloor>"
proof -
  let ?d = "delta_back (normalize_head headAngle) (angles ring ! i)"
  let ?A = "tail_arc ring pl"
  let ?t = "1 - ?d / ?A"
  from assms have p: "0 < falloffPower ring" by (simp add: ring_ok_def)
  have Apos: "0 < ?A" by (rule tail_arc_pos)
  have t: "?t < 0 \<longleftrightarrow> ?A < ?d" using Apos by simp
  have pw: "Math_pow ?t (falloffPower ring) = None \<longleftrightarrow>
     ?t < 0 \<and> falloffPower ring \<noteq> of_int \<lfloor>falloffPower ring\<rfloor>"
    by (rule Math_pow_None_iff [OF p])
  show ?thesis
  proof (cases "0 \<le> ?d \<and> ?d \<le> ?A + EPS")
    case True
    then have "ring_intensity ring headAngle intensityScale pl i = None \<longleftrightarrow>
        Math_pow ?t (falloffPower ring) = None"
      by (simp add: ring_intensity_def point_intensity_def Let_def)
    with True show ?thesis by (simp only: pw t) simp
  next
    case False
    then have "ring_intensity ring headAngle intensityScale pl i \<noteq> None"
      by (auto simp: ring_intensity_def point_intensity_def Let_def)
    moreover have "\<not> (?A < ?d \<and> ?d \<le> ?A + EPS)" using False Apos by auto
    ultimately show ?thesis by auto
  qed
qed

text \<open>
  Claim C9. In a paint call on a ring satisfying \<open>ring_ok\<close>, a point whose angle equals
  the normalized head angle gets the intensity \<open>min(1, max(0, intensityScale))\<close>. Every
  point of the ring gets an intensity that is a number at most that, unless the point lies
  inside the epsilon guard beyond the tail arc (\<open>A < deltaBack \<le> A + EPS\<close>), the only
  place where the intensity can be NaN. The channels written for a point are the base
  colour's channels times its intensity.
\<close>

theorem head_point_brightest:
  assumes "ring_ok ring" and "i < length (angles ring)"
    and "angles ring ! i = normalize_head headAngle"
  shows "ring_intensity ring headAngle intensityScale pl i = Some (min 1 (max 0 intensityScale))
       \<and> (\<forall>j < length (angles ring).
            (case ring_intensity ring headAngle intensityScale pl j of
               None \<Rightarrow>
                 tail_arc ring pl < delta_back (normalize_head headAngle) (angles ring ! j)
                 \<and> delta_back (normalize_head headAngle) (angles ring ! j) \<le> tail_arc ring pl + EPS
             | Some v \<Rightarrow> v \<le> min 1 (max 0 intensityScale))
            \<and> colors (updateFill ring headAngle intensityScale pl mode) ! (j * 3)
                = map_option (\<lambda>x. col_r (baseColor ring) * x) (ring_intensity ring headAngle intensityScale pl j)
            \<and> colors (updateFill ring headAngle intensityScale pl mode) ! (j * 3 + 1)
                = map_option (\<lambda>x. col_g (baseColor ring) * x) (ring_intensity ring headAngle intensityScale pl j)
            \<and> colors (updateFill ring headAngle intensityScale pl mode) ! (j * 3 + 2)
                = map_option (\<lambda>x. col_b (baseColor ring) * x) (ring_intensity ring headAngle intensityScale pl j))"
proof (intro conjI allI impI)
  from assms(1) have len: "length (colors ring) = 3 * length (angles ring)"
    and p: "0 \<le> falloffPower ring"
    by (simp_all add: ring_ok_def)
  show "ring_intensity ring headAngle intensityScale pl i = Some (min 1 (max 0 intensityScale))"
    using point_intensity_head [OF tail_arc_pos, of "max 0 intensityScale"]
    by (simp add: ring_intensity_def assms(3))
  fix j assume j: "j < length (angles ring)"
  have A: "EPS \<le> tail_arc ring pl"
    using tail_arc_lower [of ring pl] by (simp add: EPS_def)
  show "case ring_intensity ring headAngle intensityScale pl j of
               None \<Rightarrow>
                 tail_arc ring pl < delta_back (normalize_head headAngle) (angles ring ! j)
                 \<and> delta_back (normalize_head headAngle) (angles ring ! j) \<le> tail_arc ring pl + EPS
             | Some v \<Rightarrow> v \<le> min 1 (max 0 intensityScale)"
  proof (cases "ring_intensity ring headAngle intensityScale pl j")
    case None
    then show ?thesis
      using ring_intensity_nan_iff [OF assms(1), of headAngle intensityScale pl j] by simp
  next
    case (Some v)
    then have "point_intensity (normalize_head headAngle) (tail_arc ring pl) (falloffPower ring)
        (max 0 intensityScale) (angles ring ! j) = Some v"
      by (simp add: ring_intensity_def)
    then have "v \<le> min 1 (max 0 intensityScale)"
      using A p by (rule point_intensity_le) simp
    with Some show ?thesis by simp
  qed
  show "colors (updateFill ring headAngle intensityScale pl mode) ! (j * 3)
          = map_option (\<lambda>x. col_r (baseColor ring) * x) (ring_intensity ring headAngle intensityScale pl j)"
    by (rule updateFill_colors(1) [OF len j])
  show "colors (updateFill ring headAngle intensityScale pl mode) ! (j * 3 + 1)
          = map_option (\<lambda>x. col_g (baseColor ring) * x) (ring_intensity ring headAngle intensityScale pl j)"
    by (rule updateFill_colors(2) [OF len j])
  show "colors (updateFill ring headAngle intensityScale pl mode) ! (j * 3 + 2)
          = map_option (\<lambda>x. col_b (baseColor ring) * x) (ring_intensity ring headAngle intensityScale pl j)"
    by (rule updateFill_colors(3) [OF len j])
qed

lemma updateFill_band_nan:
  assumes "ring_ok ring" and "i < length (angles ring)"
    and "tail_arc ring pl < delta_back (normalize_head headAngle) (angles ring ! i)"
    and "delta_back (normalize_head headAngle) (angles ring ! i) \<le> tail_arc ring pl + EPS"
    and "falloffPower ring \<noteq> of_int \<lfloor>falloffPower ring\<rfloor>"
  shows "ring_intensity ring headAngle intensityScale pl i = None"
    and "colors (updateFill ring headAngle intensityScale pl mode) ! (i * 3) = None"
    and "colors (updateFill ring headAngle intensityScale pl mode) ! (i * 3 + 1) = None"
    and "colors (updateFill ring headAngle intensityScale pl mode) ! (i * 3 + 2) = None"
proof -
  from assms(1) have len: "length (colors ring) = 3 * length (angles ring)"
    by (simp add: ring_ok_def)
  show nan: "ring_intensity ring headAngle intensityScale pl i = None"
    unfolding ring_intensity_def
    by (rule point_intensity_band [OF tail_arc_pos assms(3,4,5)])
  show "colors (updateFill ring headAngle intensityScale pl mode) ! (i * 3) = None"
    by (simp only: updateFill_colors(1) [OF len assms(2)] nan option.map)
  show "colors (updateFill ring headAngle intensityScale pl mode) ! (i * 3 + 1) = None"
    by (simp only: updateFill_colors(2) [OF len assms(2)] nan option.map)
  show "colors (updateFill ring headAngle intensityScale pl mode) ! (i * 3 + 2) = None"
    by (simp only: updateFill_colors(3) [OF len assms(2)] nan option.map)
qed

lemma normalize_head_frac:
  assumes "0 \<le> q" and "q < 1"
  shows "normalize_head (q * tau) = q * tau"
proof -
  have "\<lfloor>q\<rfloor> = 0" using assms by linarith
  then have "trunc q = 0" using assms by (simp add: trunc_def)
  then have "js_rem (q * tau) tau = q * tau" by (simp add: js_rem_mult [OF tau_pos])
  moreover have "0 \<le> q * tau" using assms(1) tau_pos by simp
  ultimately show ?thesis by (simp add: normalize_head_def Let_def)
qed

lemma delta_back_frac:
  assumes "r \<le> q" and "q < r + 1"
  shows "delta_back (q * tau) (r * tau) = (q - r) * tau"
proof -
  have "trunc (q - r + 1) = 1"
  proof -
    have "0 \<le> q - r + 1" using assms by simp
    moreover have "\<lfloor>q - r + 1\<rfloor> = 1" using assms by linarith
    ultimately show ?thesis by (simp add: trunc_def)
  qed
  moreover have "q * tau - r * tau + tau = (q - r + 1) * tau" by (simp add: algebra_simps)
  ultimately show ?thesis
    by (simp add: delta_back_def js_rem_mult [OF tau_pos])
qed

lemma delta_back_frac_wrap:
  assumes "q < r" and "r \<le> q + 1"
  shows "delta_back (q * tau) (r * tau) = (q - r + 1) * tau"
proof -
  have "trunc (q - r + 1) = 0"
  proof -
    have "0 \<le> q - r + 1" using assms by simp
    moreover have "\<lfloor>q - r + 1\<rfloor> = 0" using assms by linarith
    ultimately show ?thesis by (simp add: trunc_def)
  qed
  moreover have "q * tau - r * tau + tau = (q - r + 1) * tau" by (simp add: algebra_simps)
  ultimately show ?thesis
    by (simp add: delta_back_def js_rem_mult [OF tau_pos])
qed

lemma angles_new:
  "length (angles (RingPoints_new config)) = cfg_points config"
  "i < cfg_points config \<Longrightarrow>
     angles (RingPoints_new config) ! i = (real i / real (cfg_points config)) * tau"
  by (simp_all add: RingPoints_new_def Let_def tau_def)

lemma tail_arc_new:
  assumes "1 / 40000 \<le> c" and "c \<le> 1"
    and "cfg_minTailLength config = c" and "cfg_maxTailLength config = c"
  shows "tail_arc (RingPoints_new config) pl = c * tau"
proof -
  have "c * 4 \<le> c * tau" using assms(1) tau_ge_4 by (intro mult_left_mono) simp_all
  moreover have "1 / 10000 \<le> c * 4" using assms(1) by simp
  ultimately have "1 / 10000 \<le> c * tau" by linarith
  then have "max (c * tau) (1 / 10000) = c * tau" by simp
  moreover have "clamp c 0 1 = c" using assms(1,2) by (simp add: clamp_def)
  ultimately show ?thesis
    by (simp add: tail_arc_def RingPoints_new_def Let_def assms(3,4) lerp_def algebra_simps)
qed

lemma falloffPower_new:
  "falloffPower (RingPoints_new config) = lerp 1.2 3.0 (clamp (cfg_falloffFactor config) 0 1)"
  by (simp add: RingPoints_new_def Let_def)

lemma baseColor_new: "baseColor (RingPoints_new config) = cfg_baseColor config"
  by (simp add: RingPoints_new_def Let_def)

text \<open>The scenario ring with the head at angle 0: the head point is fully lit, the point a
  quarter turn ahead of the head is dark.\<close>

lemma updateFill_outside_guard_scenario:
  "ring_ok scenario_ring \<and> 0 < length (angles scenario_ring)
   \<and> colors (updateFill scenario_ring 0 1 0 classic) ! 0 = Some 1
   \<and> 1 < length (angles scenario_ring)
   \<and> colors (updateFill scenario_ring 0 1 0 classic) ! 3 = Some 0"
proof -
  have ok: "ring_ok scenario_ring" by (simp add: scenario_ring_def ring_ok_new)
  have n: "length (angles scenario_ring) = 4" by (simp add: scenario_ring_def angles_new)
  have a0: "angles scenario_ring ! 0 = 0 * tau" and a1: "angles scenario_ring ! Suc 0 = (1 / 4) * tau"
    by (simp_all add: scenario_ring_def angles_new)
  have h: "normalize_head 0 = 0 * tau" using normalize_head_frac [of 0] by simp
  have A: "tail_arc scenario_ring 0 = (1 / 2) * tau"
    unfolding scenario_ring_def by (rule tail_arc_new) simp_all
  have d0: "delta_back (normalize_head 0) (angles scenario_ring ! 0) = 0"
    by (simp add: h a0 delta_back_head)
  have "delta_back (normalize_head 0) (angles scenario_ring ! Suc 0) = delta_back (0 * tau) ((1 / 4) * tau)"
    by (simp only: h a1)
  also have "\<dots> = (0 - 1 / 4 + 1) * tau"
    by (rule delta_back_frac_wrap) simp_all
  finally have d1: "delta_back (normalize_head 0) (angles scenario_ring ! Suc 0) = (3 / 4) * tau"
    by simp
  have g0: "delta_back (normalize_head 0) (angles scenario_ring ! 0) \<le> tail_arc scenario_ring 0
      \<or> tail_arc scenario_ring 0 + EPS < delta_back (normalize_head 0) (angles scenario_ring ! 0)"
    using tail_arc_pos [of scenario_ring 0] by (simp add: d0)
  have far: "tail_arc scenario_ring 0 + EPS < delta_back (normalize_head 0) (angles scenario_ring ! Suc 0)"
    using tau_ge_4 by (simp add: d1 A EPS_def)
  then have g1: "delta_back (normalize_head 0) (angles scenario_ring ! Suc 0) \<le> tail_arc scenario_ring 0
      \<or> tail_arc scenario_ring 0 + EPS < delta_back (normalize_head 0) (angles scenario_ring ! Suc 0)"
    by simp
  have s0: "spec_intensity (normalize_head 0) (tail_arc scenario_ring 0) 1 TAIL_FLOOR
      (falloffPower scenario_ring) (angles scenario_ring ! 0) = 1"
    using tail_arc_pos [of scenario_ring 0]
    by (simp add: spec_intensity_def Let_def d0 EPS_def clamp_def)
  have s1: "spec_intensity (normalize_head 0) (tail_arc scenario_ring 0) 1 TAIL_FLOOR
      (falloffPower scenario_ring) (angles scenario_ring ! Suc 0) = 0"
    using far by (simp add: spec_intensity_def Let_def clamp_def)
  have r: "col_r (baseColor scenario_ring) = 1"
    by (simp add: scenario_ring_def baseColor_new unit_red_def)
  have c0: "colors (updateFill scenario_ring 0 1 0 classic) ! 0 = Some 1"
    using updateFill_outside_guard [of scenario_ring 0 0 0 1 classic] ok n g0
    by (simp add: s0 r)
  have c1: "colors (updateFill scenario_ring 0 1 0 classic) ! 3 = Some 0"
    using updateFill_outside_guard [of scenario_ring "Suc 0" 0 0 1 classic] ok n g1
    by (simp add: s1 r)
  from ok n c0 c1 show ?thesis by simp
qed


text \<open>The scenario ring with the head at angle 0, which is point 0.\<close>

theorem head_point_brightest_witness:
  "ring_ok scenario_ring \<and> 0 < length (angles scenario_ring)
   \<and> angles scenario_ring ! 0 = normalize_head 0
   \<and> ring_intensity scenario_ring 0 1 0 0 = Some 1
   \<and> Suc 0 < length (angles scenario_ring)
   \<and> (case ring_intensity scenario_ring 0 1 0 (Suc 0) of
         None \<Rightarrow>
           tail_arc scenario_ring 0 < delta_back (normalize_head 0) (angles scenario_ring ! Suc 0)
           \<and> delta_back (normalize_head 0) (angles scenario_ring ! Suc 0) \<le> tail_arc scenario_ring 0 + EPS
       | Some v \<Rightarrow> v \<le> 1)
   \<and> ring_intensity scenario_ring 0 1 0 (Suc 0) = Some 0"
proof -
  have ok: "ring_ok scenario_ring" by (simp add: scenario_ring_def ring_ok_new)
  have n: "length (angles scenario_ring) = 4" by (simp add: scenario_ring_def angles_new)
  have a0: "angles scenario_ring ! 0 = 0" by (simp add: scenario_ring_def angles_new)
  have a1: "angles scenario_ring ! Suc 0 = (1 / 4) * tau"
    by (simp add: scenario_ring_def angles_new)
  have h: "normalize_head 0 = 0" using normalize_head_frac [of 0] by simp
  have h': "normalize_head 0 = 0 * tau" by (simp add: h)
  have i: "0 < length (angles scenario_ring)" and j: "Suc 0 < length (angles scenario_ring)"
    by (simp_all add: n)
  have eq: "angles scenario_ring ! 0 = normalize_head 0" by (simp add: a0 h)
  note t = head_point_brightest [OF ok i eq, of 1 0 classic]
  from t have top: "ring_intensity scenario_ring 0 1 0 0 = Some 1" by simp
  have A: "tail_arc scenario_ring 0 = (1 / 2) * tau"
    unfolding scenario_ring_def by (rule tail_arc_new) simp_all
  have "delta_back (normalize_head 0) (angles scenario_ring ! Suc 0) = delta_back (0 * tau) ((1 / 4) * tau)"
    by (simp only: h' a1)
  also have "\<dots> = (0 - 1 / 4 + 1) * tau"
    by (rule delta_back_frac_wrap) simp_all
  finally have d1: "delta_back (normalize_head 0) (angles scenario_ring ! Suc 0) = (3 / 4) * tau"
    by simp
  have far: "tail_arc scenario_ring 0 + EPS < delta_back (normalize_head 0) (angles scenario_ring ! Suc 0)"
    using tau_ge_4 by (simp add: d1 A EPS_def)
  then have dark: "ring_intensity scenario_ring 0 1 0 (Suc 0) = Some 0"
    by (simp add: ring_intensity_def point_intensity_def Let_def)
  from t [THEN conjunct2, rule_format, OF j, THEN conjunct1]
  have "case ring_intensity scenario_ring 0 1 0 (Suc 0) of
         None \<Rightarrow>
           tail_arc scenario_ring 0 < delta_back (normalize_head 0) (angles scenario_ring ! Suc 0)
           \<and> delta_back (normalize_head 0) (angles scenario_ring ! Suc 0) \<le> tail_arc scenario_ring 0 + EPS
       | Some v \<Rightarrow> v \<le> 1"
    by (simp split: option.splits)
  with top dark show ?thesis using ok i j eq by simp
qed

lemma hourRing_new:
  "hourRing (ClockSystem_new config hourColor minuteColor secondColor) =
     RingPoints_new
       \<lparr>cfg_radius = 3.1 + 0.6 * 7, cfg_thickness = 0.31,
        cfg_points = (case cfg_pointsPerRing config of None \<Rightarrow> 12 | Some n \<Rightarrow> n),
        cfg_falloffFactor = 0.35,
        cfg_minTailLength = clamp (case cfg_minTail config of None \<Rightarrow> 0.031 | Some v \<Rightarrow> v) 0 1,
        cfg_maxTailLength = clamp (case cfg_maxTail config of None \<Rightarrow> 0.97 | Some v \<Rightarrow> v) 0 1,
        cfg_baseColor = hourColor\<rparr>"
  by (simp add: ClockSystem_new_def Let_def)

lemma tail_arc_zero:
  "tail_arc ring 0 = max (minTailLengthFraction ring * tau) (1 / 10000)"
  by (simp add: tail_arc_def Let_def clamp_def lerp_def)

text \<open>
  Claim C1 at a failing input. The claim says that every point of a paint call gets, in
  each channel, the base colour's channel times an intensity clamped to [0,1]: 0 beyond the
  tail arc and its epsilon guard, and otherwise \<open>f + (1 - f) * t ^ falloffShapePower\<close>
  with \<open>t = 1 - deltaBack / A\<close>, times the scale. The clock \<open>guard_clock\<close>, at presence
  level 0 and updated at 03:00:00.000, paints its hour ring with the head at \<open>\<pi> / 2\<close>.
  Point 0 lies \<open>\<pi> / 2\<close> behind the head: beyond the tail arc of
  \<open>(1/4 - 10^-7) * 2\<pi>\<close>, within the guard. There \<open>t\<close> is negative,
  \<open>Math.pow(t, 1.83)\<close> is NaN, and the channel written is NaN, not the base channel times
  the intensity of the specification.
\<close>

theorem updateFill_guard_point_nan:
  "hourRing (ClockSystem_update guard_clock 0 three_oclock) = updateFill guard_ring (pi / 2) 1 0 classic
   \<and> tail_arc guard_ring 0 < delta_back (normalize_head (pi / 2)) (angles guard_ring ! 0)
   \<and> delta_back (normalize_head (pi / 2)) (angles guard_ring ! 0) \<le> tail_arc guard_ring 0 + EPS
   \<and> colors (updateFill guard_ring (pi / 2) 1 0 classic) ! 0 = None
   \<and> colors (updateFill guard_ring (pi / 2) 1 0 classic) ! 0 \<noteq>
       Some (col_r (baseColor guard_ring) *
         spec_intensity (normalize_head (pi / 2)) (tail_arc guard_ring 0) 1 TAIL_FLOOR
           (falloffPower guard_ring) (angles guard_ring ! 0))"
proof -
  have R: "guard_ring = RingPoints_new
       \<lparr>cfg_radius = 3.1 + 0.6 * 7, cfg_thickness = 0.31, cfg_points = 4,
        cfg_falloffFactor = 0.35, cfg_minTailLength = clamp (1 / 4 - 1 / 10000000) 0 1,
        cfg_maxTailLength = clamp 0.97 0 1, cfg_baseColor = gold\<rparr>"
    by (simp add: guard_ring_def guard_clock_def guard_config_def hourRing_new)
  have ok: "ring_ok guard_ring" unfolding R by (rule ring_ok_new)
  have n: "0 < length (angles guard_ring)" by (simp add: R angles_new)
  have a0: "angles guard_ring ! 0 = 0 * tau" by (simp add: R angles_new)
  have e: "pi / 2 = (1 / 4) * tau" by (simp add: tau_def)
  have h: "normalize_head (pi / 2) = (1 / 4) * tau"
    unfolding e by (rule normalize_head_frac) simp_all
  have m: "minTailLengthFraction guard_ring = 1 / 4 - 1 / 10000000"
    by (simp add: R RingPoints_new_def Let_def clamp_def)
  have "(1 / 4 - 1 / 10000000) * 4 \<le> (1 / 4 - 1 / 10000000) * tau"
    using tau_ge_4 by (intro mult_left_mono) simp_all
  then have "1 / 10000 \<le> (1 / 4 - 1 / 10000000) * tau" by simp
  then have "max ((1 / 4 - 1 / 10000000) * tau) (1 / 10000) = (1 / 4 - 1 / 10000000) * tau"
    by (rule max_absorb1)
  then have A: "tail_arc guard_ring 0 = (1 / 4 - 1 / 10000000) * tau"
    by (simp only: tail_arc_zero m)
  have "delta_back ((1 / 4) * tau) (0 * tau) = (1 / 4 - 0) * tau"
    by (rule delta_back_frac) simp_all
  then have d: "delta_back (normalize_head (pi / 2)) (angles guard_ring ! 0) = (1 / 4) * tau"
    by (simp only: h a0) simp
  have lo: "tail_arc guard_ring 0 < delta_back (normalize_head (pi / 2)) (angles guard_ring ! 0)"
    unfolding d A using tau_pos by simp
  have hi: "delta_back (normalize_head (pi / 2)) (angles guard_ring ! 0) \<le> tail_arc guard_ring 0 + EPS"
    unfolding d A EPS_def using tau_less_8 by (simp add: algebra_simps)
  have p: "falloffPower guard_ring = 183 / 100"
    by (simp add: R falloffPower_new lerp_def clamp_def)
  have ni: "falloffPower guard_ring \<noteq> of_int \<lfloor>falloffPower guard_ring\<rfloor>"
    by (simp add: p)
  have "colors (updateFill guard_ring (pi / 2) 1 0 classic) ! (0 * 3) = None"
    by (rule updateFill_band_nan(2) [OF ok n lo hi ni])
  then have nan: "colors (updateFill guard_ring (pi / 2) 1 0 classic) ! 0 = None" by simp
  have q: "hourProgress three_oclock * tau = pi / 2"
    by (simp add: hourProgress_def three_oclock_def tau_def)
  have f: "hourPresence guard_clock = None" "presenceLevel guard_clock = 0"
      "globalIntensity guard_clock = 1" "distanceFactor guard_clock = 1"
      "audioLow guard_clock = 0" "colorMode guard_clock = classic"
    by (simp_all add: guard_clock_def ClockSystem_new_def Let_def)
  have u: "hourRing (ClockSystem_update guard_clock 0 three_oclock)
      = updateFill guard_ring (pi / 2) 1 0 classic"
    by (simp add: hourRing_update q f guard_ring_def)
  from u lo hi nan show ?thesis by simp
qed

lemma Math_pow_lower:
  assumes "Math_pow t p = Some sh" and "- (1 / 100) \<le> t" and "t \<le> 1" and "1 \<le> p"
  shows "- (1 / 100) \<le> sh"
proof (cases "0 \<le> t")
  case True
  then have "0 \<le> sh"
    using assms(1) by (auto simp: Math_pow_def split: if_splits)
  then show ?thesis by simp
next
  case False
  with assms(1,4) have sh: "sh = t powi \<lfloor>p\<rfloor>"
    by (auto simp: Math_pow_def split: if_splits)
  have "1 \<le> \<lfloor>p\<rfloor>" using assms(4) by linarith
  then obtain k where k: "nat \<lfloor>p\<rfloor> = Suc k" by (cases "nat \<lfloor>p\<rfloor>") simp_all
  have "sh = t ^ Suc k" using \<open>1 \<le> \<lfloor>p\<rfloor>\<close> by (simp add: sh power_int_def k)
  then have "\<bar>sh\<bar> = \<bar>t\<bar> * \<bar>t\<bar> ^ k" by (simp add: abs_mult power_abs)
  moreover have "\<bar>t\<bar> ^ k \<le> 1" using assms(2,3) by (intro power_le_one) simp_all
  then have "\<bar>t\<bar> * \<bar>t\<bar> ^ k \<le> \<bar>t\<bar> * 1" by (intro mult_left_mono) simp_all
  moreover have "\<bar>t\<bar> \<le> 1 / 100" using False assms(2) by simp
  ultimately show ?thesis by linarith
qed

lemma point_intensity_nonneg:
  assumes "point_intensity head A p s a = Some v" and "1 / 10000 \<le> A" and "1 \<le> p" and "0 \<le> s"
  shows "0 \<le> v"
proof (cases "0 \<le> delta_back head a \<and> delta_back head a \<le> A + EPS")
  case False
  with assms(1) show ?thesis by (auto simp: point_intensity_def Let_def)
next
  case True
  define t where "t = 1 - delta_back head a / A"
  have Apos: "0 < A" using assms(2) by simp
  from True obtain sh where sh: "Math_pow t p = Some sh"
    and v: "v = (let x = (TAIL_FLOOR + (1 - TAIL_FLOOR) * sh) * s in if 1 < x then 1 else x)"
    using assms(1) by (auto simp: point_intensity_def Let_def t_def)
  have "delta_back head a / A \<le> (A + EPS) / A"
    using True Apos by (simp add: divide_right_mono)
  also have "\<dots> = 1 + EPS / A" using Apos by (simp add: add_divide_distrib)
  also have "EPS / A \<le> EPS / (1 / 10000)"
    using assms(2) by (intro divide_left_mono) (simp_all add: EPS_def)
  finally have lo: "- (1 / 100) \<le> t" by (simp add: t_def EPS_def)
  have hi: "t \<le> 1" using True Apos by (simp add: t_def)
  have "- (1 / 100) \<le> sh" using Math_pow_lower [OF sh lo hi assms(3)] .
  then have "(1 - TAIL_FLOOR) * (- (1 / 100)) \<le> (1 - TAIL_FLOOR) * sh"
    by (intro mult_left_mono) (simp_all add: TAIL_FLOOR_def)
  then have "0 \<le> TAIL_FLOOR + (1 - TAIL_FLOOR) * sh" by (simp add: TAIL_FLOOR_def)
  then have "0 \<le> (TAIL_FLOOR + (1 - TAIL_FLOOR) * sh) * s" using assms(4) by simp
  then show ?thesis unfolding v Let_def by simp
qed

text \<open>
  Where the intensity of a point is a number, a channel written from a base channel in
  [0,1] lies in [0,1].
\<close>

lemma updateFill_channel_range:
  assumes "ring_ok ring" and "i < length (angles ring)" and "0 \<le> c" and "c \<le> 1"
    and "ring_intensity ring headAngle intensityScale pl i = Some v"
  shows "0 \<le> c * v \<and> c * v \<le> 1"
proof -
  from assms(1) have p: "1 \<le> falloffPower ring" by (simp add: ring_ok_def)
  have A: "EPS \<le> tail_arc ring pl"
    using tail_arc_lower [of ring pl] by (simp add: EPS_def)
  have s: "0 \<le> max 0 intensityScale" by simp
  have pi: "point_intensity (normalize_head headAngle) (tail_arc ring pl) (falloffPower ring)
      (max 0 intensityScale) (angles ring ! i) = Some v"
    using assms(5) by (simp add: ring_intensity_def)
  have "0 \<le> v"
    by (rule point_intensity_nonneg [OF pi tail_arc_lower p s])
  moreover have "v \<le> min 1 (max 0 intensityScale)"
    using p by (intro point_intensity_le [OF pi A _ s]) simp
  then have "v \<le> 1" by simp
  ultimately show ?thesis
    using assms(3,4) by (simp add: mult_le_one)
qed

text \<open>
  Claim C3 at a failing input. A clock built with the default configuration, presence level
  still 0, updated at 00:22:19.203: point 0 of the hour ring lies within the epsilon guard
  beyond the tail arc, and the red channel written for it is NaN.
\<close>

theorem update_writes_nan:
  "colors (hourRing (ClockSystem_update default_clock dt guard_time)) ! 0 = None"
proof -
  define R where "R = hourRing default_clock"
  have R: "R = RingPoints_new
       \<lparr>cfg_radius = 3.1 + 0.6 * 7, cfg_thickness = 0.31, cfg_points = 12,
        cfg_falloffFactor = 0.35, cfg_minTailLength = clamp 0.031 0 1,
        cfg_maxTailLength = clamp 0.97 0 1, cfg_baseColor = gold\<rparr>"
    by (simp add: R_def default_clock_def default_config_def hourRing_new)
  have ok: "ring_ok R" unfolding R by (rule ring_ok_new)
  have n: "0 < length (angles R)" by (simp add: R angles_new)
  have a0: "angles R ! 0 = 0 * tau" by (simp add: R angles_new)
  have q: "hourProgress guard_time = 1339203 / 43200000"
    by (simp add: hourProgress_def guard_time_def)
  have h: "normalize_head (hourProgress guard_time * tau) = (1339203 / 43200000) * tau"
    unfolding q by (rule normalize_head_frac) simp_all
  have m: "minTailLengthFraction R = 31 / 1000"
    by (simp add: R RingPoints_new_def Let_def clamp_def)
  have "(31 / 1000) * 4 \<le> (31 / 1000) * tau"
    using tau_ge_4 by (intro mult_left_mono) simp_all
  then have "1 / 10000 \<le> (31 / 1000) * tau" by simp
  then have "max ((31 / 1000) * tau) (1 / 10000) = (31 / 1000) * tau" by (rule max_absorb1)
  then have A: "tail_arc R 0 = (31 / 1000) * tau"
    by (simp only: tail_arc_zero m)
  have "delta_back ((1339203 / 43200000) * tau) (0 * tau) = (1339203 / 43200000 - 0) * tau"
    by (rule delta_back_frac) simp_all
  then have d: "delta_back (normalize_head (hourProgress guard_time * tau)) (angles R ! 0)
      = (1339203 / 43200000) * tau"
    by (simp only: h a0) simp
  have lo: "tail_arc R 0 < delta_back (normalize_head (hourProgress guard_time * tau)) (angles R ! 0)"
    unfolding d A using tau_pos by simp
  have hi: "delta_back (normalize_head (hourProgress guard_time * tau)) (angles R ! 0) \<le> tail_arc R 0 + EPS"
    unfolding d A EPS_def using tau_less_8 by (simp add: algebra_simps)
  have p: "falloffPower R = 183 / 100"
    by (simp add: R falloffPower_new lerp_def clamp_def)
  have ni: "falloffPower R \<noteq> of_int \<lfloor>falloffPower R\<rfloor>"
    by (simp add: p)
  have nan: "colors (updateFill R (hourProgress guard_time * tau) s pl mode) ! (0 * 3) = None"
    if "pl = 0" for s pl mode
    unfolding that by (rule updateFill_band_nan(2) [OF ok n lo hi ni])
  have "hourPresence default_clock = None" "presenceLevel default_clock = 0"
    by (simp_all add: default_clock_def ClockSystem_new_def Let_def)
  then show ?thesis
    using nan by (simp add: hourRing_update R_def [symmetric])
qed

end
